theory Spec2Isabelle
  imports Main "HOL-Library.Word"
begin

unbundle bit_operations_syntax

section \<open>Strings\<close>

text \<open>
  A JavaScript string is modelled as a \<^typ>\<open>string\<close>. Every string the program slices,
  pads or measures on its regular paths (PINs, hex keys, vault blobs, timestamps) is ASCII,
  where one \<^typ>\<open>char\<close> is one UTF-16 code unit and also one UTF-8 byte. Other strings
  are held as their UTF-8 bytes, so that on them the operations below count bytes where
  JavaScript counts code units.
\<close>

text \<open>\<^verbatim>\<open>s.slice(a, b)\<close> and \<^verbatim>\<open>s.slice(a)\<close> for non-negative bounds.\<close>

definition slice_str :: "nat \<Rightarrow> nat \<Rightarrow> string \<Rightarrow> string" where
  "slice_str a b s = take (b - a) (drop a s)"

definition slice_from :: "nat \<Rightarrow> string \<Rightarrow> string" where
  "slice_from a s = drop a s"

text \<open>
  The ECMAScript white space and line terminator characters, which
  \<^verbatim>\<open>String.prototype.trim\<close> and \<^verbatim>\<open>parseInt\<close> strip, in UTF-8: the six ASCII ones
  (tab, line feed, vertical tab, form feed, carriage return, space), U+00A0 in two bytes,
  and in three bytes U+1680, U+2000 to U+200A, U+2028, U+2029, U+202F, U+205F, U+3000 and
  U+FEFF.
\<close>

definition isWhiteSpace :: "char \<Rightarrow> bool" where
  "isWhiteSpace c \<longleftrightarrow> c \<in> set [CHR 0x09, CHR 0x0A, CHR 0x0B, CHR 0x0C, CHR 0x0D, CHR 0x20]"

definition whiteSpace2 :: "string list" where
  "whiteSpace2 = [[CHR 0xC2, CHR 0xA0]]"

definition whiteSpace3 :: "string list" where
  "whiteSpace3 =
     [[CHR 0xE1, CHR 0x9A, CHR 0x80],
      [CHR 0xE2, CHR 0x80, CHR 0x80], [CHR 0xE2, CHR 0x80, CHR 0x81],
      [CHR 0xE2, CHR 0x80, CHR 0x82], [CHR 0xE2, CHR 0x80, CHR 0x83],
      [CHR 0xE2, CHR 0x80, CHR 0x84], [CHR 0xE2, CHR 0x80, CHR 0x85],
      [CHR 0xE2, CHR 0x80, CHR 0x86], [CHR 0xE2, CHR 0x80, CHR 0x87],
      [CHR 0xE2, CHR 0x80, CHR 0x88], [CHR 0xE2, CHR 0x80, CHR 0x89],
      [CHR 0xE2, CHR 0x80, CHR 0x8A],
      [CHR 0xE2, CHR 0x80, CHR 0xA8], [CHR 0xE2, CHR 0x80, CHR 0xA9],
      [CHR 0xE2, CHR 0x80, CHR 0xAF], [CHR 0xE2, CHR 0x81, CHR 0x9F],
      [CHR 0xE3, CHR 0x80, CHR 0x80], [CHR 0xEF, CHR 0xBB, CHR 0xBF]]"

text \<open>
  The number of bytes of the white space character that a string starts with, or ends
  with; 0 when there is none.
\<close>

definition whiteSpaceLength :: "string \<Rightarrow> nat" where
  "whiteSpaceLength s =
     (if s \<noteq> [] \<and> isWhiteSpace (hd s) then 1
      else if take 2 s \<in> set whiteSpace2 then 2
      else if take 3 s \<in> set whiteSpace3 then 3
      else 0)"

definition whiteSpaceLengthEnd :: "string \<Rightarrow> nat" where
  "whiteSpaceLengthEnd s =
     (if s \<noteq> [] \<and> isWhiteSpace (last s) then 1
      else if drop (length s - 2) s \<in> set whiteSpace2 then 2
      else if drop (length s - 3) s \<in> set whiteSpace3 then 3
      else 0)"

function trimStart :: "string \<Rightarrow> string" where
  "trimStart s = (if whiteSpaceLength s = 0 then s else trimStart (drop (whiteSpaceLength s) s))"
  by pat_completeness auto
termination
proof (relation "measure length")
  show "wf (measure length)" by simp
next
  fix s :: string
  assume some: "whiteSpaceLength s \<noteq> 0"
  then have "s \<noteq> []"
    by (auto simp: whiteSpaceLength_def whiteSpace2_def whiteSpace3_def)
  with some show "(drop (whiteSpaceLength s) s, s) \<in> measure length"
    by simp
qed

function trimEnd :: "string \<Rightarrow> string" where
  "trimEnd s =
     (if whiteSpaceLengthEnd s = 0 then s else trimEnd (take (length s - whiteSpaceLengthEnd s) s))"
  by pat_completeness auto
termination
proof (relation "measure length")
  show "wf (measure length)" by simp
next
  fix s :: string
  assume some: "whiteSpaceLengthEnd s \<noteq> 0"
  then have "s \<noteq> []"
    by (auto simp: whiteSpaceLengthEnd_def whiteSpace2_def whiteSpace3_def)
  with some show "(take (length s - whiteSpaceLengthEnd s) s, s) \<in> measure length"
    by simp
qed

declare trimStart.simps [simp del] trimEnd.simps [simp del]

definition trim :: "string \<Rightarrow> string" where
  "trim s = trimEnd (trimStart s)"

section \<open>Device registry\<close>

record device =
  pubkey :: string
  deviceName :: string
  relayUrl :: string
  encryptedPrivKey :: string

text \<open>
  The contents of \<^verbatim>\<open>devices.json\<close>: absent, present but not a JSON array (so that
  \<^verbatim>\<open>JSON.parse\<close> or the first array method throws), or a JSON array of devices.
  Writing the file is taken to succeed.
\<close>

datatype devices_file = Missing | Unreadable | Stored "device list"

text \<open>\<^verbatim>\<open>Alert.alert(title, message)\<close>.\<close>

datatype alert = Alert string string

subsection \<open>edit-device: saveChanges and deleteDevice\<close>

text \<open>
  \<^verbatim>\<open>new URL(relayUrl)\<close> is the platform's URL parser; \<open>validURL\<close> says whether it
  accepts the string.
\<close>

definition validateInputs_edit :: "(string \<Rightarrow> bool) \<Rightarrow> string \<Rightarrow> string \<Rightarrow> string option" where
  "validateInputs_edit validURL nameInput urlInput =
     (if trim nameInput = [] then Some ''Device name is required''
      else if trim urlInput = [] then Some ''Relay URL is required''
      else if \<not> validURL urlInput then Some ''Invalid relay URL format''
      else None)"

definition saveChanges ::
  "(string \<Rightarrow> bool) \<Rightarrow> string \<Rightarrow> string \<Rightarrow> string \<Rightarrow> devices_file \<Rightarrow> alert \<times> devices_file" where
  "saveChanges validURL pk nameInput urlInput f =
     (case validateInputs_edit validURL nameInput urlInput of
        Some validationError \<Rightarrow> (Alert ''Validation Error'' validationError, f)
      | None \<Rightarrow>
          (case f of
             Stored devices \<Rightarrow>
               (let updatedDevices =
                      map (\<lambda>d. if pubkey d = pk
                                then d\<lparr>deviceName := nameInput, relayUrl := urlInput\<rparr>
                                else d) devices
                in (Alert ''Success'' ''Device updated successfully'', Stored updatedDevices))
           | _ \<Rightarrow> (Alert ''Error'' ''Failed to update device'', f)))"

text \<open>The handler of the confirmation dialog's Delete button.\<close>

definition deleteDevice :: "string \<Rightarrow> devices_file \<Rightarrow> alert \<times> devices_file" where
  "deleteDevice pk f =
     (case f of
        Stored devices \<Rightarrow>
          (let updatedDevices = filter (\<lambda>d. pubkey d \<noteq> pk) devices
           in (Alert ''Success'' ''Device deleted successfully'', Stored updatedDevices))
      | _ \<Rightarrow> (Alert ''Error'' ''Failed to delete device'', f))"

section \<open>Home screen: device status\<close>

record home_device = device +
  isOnline :: bool
  isLoading :: bool

text \<open>
  What \<^verbatim>\<open>fetch\<close> and \<^verbatim>\<open>response.json()\<close> give: a rejected promise, a response
  that is not \<^verbatim>\<open>ok\<close>, or an \<^verbatim>\<open>ok\<close> response. The payload is the string in
  \<^verbatim>\<open>data.lastfetched\<close>; it is \<open>None\<close> when the body is not JSON or has no such string,
  where \<^verbatim>\<open>response.json()\<close> or \<^verbatim>\<open>lastFetched.slice\<close> throws.
\<close>

datatype fetch_result = NetworkFailure | HttpNotOk | HttpOk "string option"

text \<open>\<^verbatim>\<open>device.relayUrl.replace(/\/$/, "")\<close>\<close>

definition cleanURL :: "string \<Rightarrow> string" where
  "cleanURL url = (if url \<noteq> [] \<and> last url = CHR ''/'' then butlast url else url)"

text \<open>
  Times are the integer millisecond counts of \<^verbatim>\<open>Date.prototype.getTime\<close>. Such
  counts and their differences are far below \<open>2^53\<close> in size wherever the quotient by 1000
  is near 60, so the floating-point quotient has the same floor as the integer one at
  the comparison with 60.
\<close>

definition diffInSeconds :: "int \<Rightarrow> int \<Rightarrow> int" where
  "diffInSeconds currentTime lastFetchedTime = (currentTime - lastFetchedTime) div 1000"

text \<open>
  \<open>dateParse\<close> is the engine's \<^verbatim>\<open>new Date(string).getTime()\<close>, \<open>None\<close> for an invalid
  date (\<^verbatim>\<open>NaN\<close>, which compares false with 60). \<open>network url pk\<close> is the outcome of
  the POST of \<^verbatim>\<open>{pubkey: pk}\<close> to \<open>url\<close>. \<open>now\<close> is \<^verbatim>\<open>new Date().getTime()\<close>.
\<close>

definition checkDeviceStatus ::
  "(string \<Rightarrow> int option) \<Rightarrow> (string \<Rightarrow> string \<Rightarrow> fetch_result) \<Rightarrow> int \<Rightarrow>
   'a device_scheme \<Rightarrow> home_device list \<Rightarrow> home_device list" where
  "checkDeviceStatus dateParse network now dev prev =
     (let online =
        (case network (cleanURL (relayUrl dev) @ ''/api/request/last-active'') (pubkey dev) of
           HttpOk (Some lastFetched) \<Rightarrow>
             (case dateParse
                     (slice_str 0 4 lastFetched @ ''-'' @ slice_str 4 6 lastFetched @ ''-'' @
                      slice_str 6 8 lastFetched @ ''T'' @ slice_str 8 10 lastFetched @ '':'' @
                      slice_str 10 12 lastFetched @ '':'' @ slice_str 12 14 lastFetched @ ''Z'') of
                Some lastFetchedTime \<Rightarrow> diffInSeconds now lastFetchedTime \<le> 60
              | None \<Rightarrow> False)
         | _ \<Rightarrow> False)
      in map (\<lambda>d. if pubkey d = pubkey dev then d\<lparr>isOnline := online, isLoading := False\<rparr> else d)
           prev)"

section \<open>Bytes, hexadecimal and Base64\<close>

type_synonym byte = "8 word"

type_synonym bytes = "byte list"

text \<open>
  A string and its UTF-8 bytes: a non-ASCII JavaScript string is represented by its UTF-8
  encoding, so \<^verbatim>\<open>CryptoJS.enc.Utf8.parse\<close> and \<^verbatim>\<open>Buffer.from(s, "utf-8")\<close> read
  the characters off as bytes.
\<close>

definition str_bytes :: "string \<Rightarrow> bytes" where
  "str_bytes s = map (\<lambda>c. of_nat (of_char c)) s"

definition bytes_str :: "bytes \<Rightarrow> string" where
  "bytes_str bs = map (\<lambda>b. char_of (unat b)) bs"

text \<open>
  \<^verbatim>\<open>wordArray.toString(CryptoJS.enc.Utf8)\<close> throws "Malformed UTF-8 data" unless the
  bytes are well-formed UTF-8 (no stray or missing continuation byte, no overlong form,
  no surrogate, nothing above U+10FFFF).
\<close>

definition isCont :: "byte \<Rightarrow> bool" where
  "isCont b \<longleftrightarrow> 0x80 \<le> b \<and> b \<le> 0xBF"

fun utf8_wellformed :: "bytes \<Rightarrow> bool" where
  "utf8_wellformed [] = True"
| "utf8_wellformed (b # bs) =
     (if b < 0x80 then utf8_wellformed bs
      else if 0xC2 \<le> b \<and> b \<le> 0xDF then
        (case bs of
           c1 # r \<Rightarrow> isCont c1 \<and> utf8_wellformed r
         | _ \<Rightarrow> False)
      else if 0xE0 \<le> b \<and> b \<le> 0xEF then
        (case bs of
           c1 # c2 # r \<Rightarrow>
             isCont c1 \<and> isCont c2 \<and> (b = 0xE0 \<longrightarrow> 0xA0 \<le> c1) \<and> (b = 0xED \<longrightarrow> c1 < 0xA0) \<and>
             utf8_wellformed r
         | _ \<Rightarrow> False)
      else if 0xF0 \<le> b \<and> b \<le> 0xF4 then
        (case bs of
           c1 # c2 # c3 # r \<Rightarrow>
             isCont c1 \<and> isCont c2 \<and> isCont c3 \<and> (b = 0xF0 \<longrightarrow> 0x90 \<le> c1) \<and>
             (b = 0xF4 \<longrightarrow> c1 < 0x90) \<and> utf8_wellformed r
         | _ \<Rightarrow> False)
      else False)"

text \<open>\<^verbatim>\<open>s.padStart(n, c)\<close> with a pad string of one character.\<close>

definition padStart :: "nat \<Rightarrow> char \<Rightarrow> string \<Rightarrow> string" where
  "padStart n c s = replicate (n - length s) c @ s"

definition hexDigit :: "nat \<Rightarrow> char" where
  "hexDigit n = ''0123456789abcdef'' ! n"

text \<open>The value of a character of \<^verbatim>\<open>[0-9a-fA-F]\<close>.\<close>

definition hexVal :: "char \<Rightarrow> nat option" where
  "hexVal c =
     (let n = (of_char c :: nat)
      in if 48 \<le> n \<and> n \<le> 57 then Some (n - 48)
         else if 97 \<le> n \<and> n \<le> 102 then Some (n - 87)
         else if 65 \<le> n \<and> n \<le> 70 then Some (n - 55)
         else None)"

definition isHexDigit :: "char \<Rightarrow> bool" where
  "isHexDigit c \<longleftrightarrow> hexVal c \<noteq> None"

text \<open>\<^verbatim>\<open>/\d/\<close>\<close>

definition isDigit :: "char \<Rightarrow> bool" where
  "isDigit c \<longleftrightarrow> 48 \<le> (of_char c :: nat) \<and> (of_char c :: nat) \<le> 57"

text \<open>\<^verbatim>\<open>n.toString(16)\<close> for a non-negative integer.\<close>

function toString16 :: "nat \<Rightarrow> string" where
  "toString16 n = (if n < 16 then [hexDigit n] else toString16 (n div 16) @ [hexDigit (n mod 16)])"
  by pat_completeness auto
termination
  by (relation "measure id") auto

declare toString16.simps [simp del]

text \<open>add-device's \<open>bytesToHex\<close>.\<close>

definition bytesToHex :: "bytes \<Rightarrow> string" where
  "bytesToHex bs = concat (map (\<lambda>byte. padStart 2 CHR ''0'' (toString16 (unat byte))) bs)"

text \<open>
  \<^verbatim>\<open>CryptoJS.enc.Hex.stringify\<close> and \<^verbatim>\<open>buffer.toString("hex")\<close>: two lower-case
  digits for each byte.
\<close>

definition hexEncode :: "bytes \<Rightarrow> string" where
  "hexEncode bs = concat (map (\<lambda>b. [hexDigit (unat b div 16), hexDigit (unat b mod 16)]) bs)"

text \<open>
  \<^verbatim>\<open>CryptoJS.enc.Hex.parse\<close> on a string of hex digit pairs. On any other string the
  library goes through \<^verbatim>\<open>parseInt\<close> on fragments and fractional byte counts; that is
  outside this model (\<open>None\<close>).
\<close>

fun Hex_parse :: "string \<Rightarrow> bytes option" where
  "Hex_parse [] = Some []"
| "Hex_parse [c] = None"
| "Hex_parse (c1 # c2 # r) =
     (case (hexVal c1, hexVal c2, Hex_parse r) of
        (Some h, Some l, Some bs) \<Rightarrow> Some (of_nat (16 * h + l) # bs)
      | _ \<Rightarrow> None)"

text \<open>
  \<^verbatim>\<open>parseInt(s, 16)\<close>: leading white space, a sign, an optional \<^verbatim>\<open>0x\<close>, then the
  longest run of hex digits; \<open>None\<close> is \<^verbatim>\<open>NaN\<close>.
\<close>

definition parseInt16 :: "string \<Rightarrow> int option" where
  "parseInt16 s =
     (let s1 = trimStart s;
          neg = (s1 \<noteq> [] \<and> hd s1 = CHR ''-'');
          s2 = (if s1 \<noteq> [] \<and> (hd s1 = CHR ''-'' \<or> hd s1 = CHR ''+'') then tl s1 else s1);
          s3 = (case s2 of
                  c0 # x # r \<Rightarrow>
                    if c0 = CHR ''0'' \<and> (x = CHR ''x'' \<or> x = CHR ''X'') then r else s2
                | _ \<Rightarrow> s2);
          ds = takeWhile isHexDigit s3;
          v = foldl (\<lambda>a c. 16 * a + int (the (hexVal c))) 0 ds
      in if ds = [] then None else Some (if neg then - v else v))"

text \<open>
  \<^verbatim>\<open>Buffer.from(s, "hex")\<close> of the \<^verbatim>\<open>buffer\<close> package: one byte for each pair of
  characters, stopping at the first pair that \<^verbatim>\<open>parseInt\<close> does not read; an odd last
  character is dropped.
\<close>

fun bufferFromHex :: "string \<Rightarrow> bytes" where
  "bufferFromHex (c1 # c2 # r) =
     (case parseInt16 [c1, c2] of
        None \<Rightarrow> []
      | Some v \<Rightarrow> word_of_int v # bufferFromHex r)"
| "bufferFromHex _ = []"

text \<open>The Base64 alphabet of \<^verbatim>\<open>CryptoJS.enc.Base64\<close>: A-Z, a-z, 0-9, +, /, padded with =.\<close>

definition b64char :: "nat \<Rightarrow> char" where
  "b64char n =
     (if n < 26 then char_of (65 + n)
      else if n < 52 then char_of (71 + n)
      else if n < 62 then char_of (n - 4)
      else if n = 62 then CHR ''+'' else CHR ''/'')"

text \<open>The reverse map; a character outside the alphabet reads as 0 there.\<close>

definition b64val :: "char \<Rightarrow> nat" where
  "b64val c =
     (let k = (of_char c :: nat)
      in if 65 \<le> k \<and> k \<le> 90 then k - 65
         else if 97 \<le> k \<and> k \<le> 122 then k - 71
         else if 48 \<le> k \<and> k \<le> 57 then k + 4
         else if c = CHR ''+'' then 62
         else if c = CHR ''/'' then 63
         else 0)"

fun Base64_stringify :: "bytes \<Rightarrow> string" where
  "Base64_stringify [] = []"
| "Base64_stringify [a] =
     [b64char (unat a div 4), b64char (unat a mod 4 * 16), CHR ''='', CHR ''='']"
| "Base64_stringify [a, b] =
     [b64char (unat a div 4), b64char (unat a mod 4 * 16 + unat b div 16),
      b64char (unat b mod 16 * 4), CHR ''='']"
| "Base64_stringify (a # b # c # r) =
     [b64char (unat a div 4), b64char (unat a mod 4 * 16 + unat b div 16),
      b64char (unat b mod 16 * 4 + unat c div 64), b64char (unat c mod 64)] @
     Base64_stringify r"

text \<open>
  \<^verbatim>\<open>parseLoop\<close>: every character that is not first in its group of four closes a byte
  made of the low bits of its predecessor and its own high bits.
\<close>

fun parseLoop :: "string \<Rightarrow> bytes" where
  "parseLoop (s0 # s1 # s2 # s3 # r) =
     [of_nat (b64val s0 * 4 + b64val s1 div 16), of_nat (b64val s1 * 16 + b64val s2 div 4),
      of_nat (b64val s2 * 64 + b64val s3)] @ parseLoop r"
| "parseLoop [s0, s1, s2] =
     [of_nat (b64val s0 * 4 + b64val s1 div 16), of_nat (b64val s1 * 16 + b64val s2 div 4)]"
| "parseLoop [s0, s1] = [of_nat (b64val s0 * 4 + b64val s1 div 16)]"
| "parseLoop _ = []"

text \<open>\<^verbatim>\<open>CryptoJS.enc.Base64.parse\<close>: the string is cut at its first padding character.\<close>

definition Base64_parse :: "string \<Rightarrow> bytes" where
  "Base64_parse s = parseLoop (takeWhile (\<lambda>c. c \<noteq> CHR ''='') s)"

section \<open>Word arrays\<close>

record wordArray =
  words :: "32 word list"
  sigBytes :: nat

text \<open>add-device's \<open>uint8ArrayToWordArray\<close>; a missing byte \<^verbatim>\<open>arr[i] || 0\<close> is 0.\<close>

fun uint8ArrayToWords :: "bytes \<Rightarrow> 32 word list" where
  "uint8ArrayToWords [] = []"
| "uint8ArrayToWords [b0] = [push_bit 24 (ucast b0)]"
| "uint8ArrayToWords [b0, b1] = [push_bit 24 (ucast b0) OR push_bit 16 (ucast b1)]"
| "uint8ArrayToWords [b0, b1, b2] =
     [push_bit 24 (ucast b0) OR push_bit 16 (ucast b1) OR push_bit 8 (ucast b2)]"
| "uint8ArrayToWords (b0 # b1 # b2 # b3 # r) =
     (push_bit 24 (ucast b0) OR push_bit 16 (ucast b1) OR push_bit 8 (ucast b2) OR ucast b3) #
     uint8ArrayToWords r"

definition uint8ArrayToWordArray :: "bytes \<Rightarrow> wordArray" where
  "uint8ArrayToWordArray arr = \<lparr>words = uint8ArrayToWords arr, sigBytes = length arr\<rparr>"

text \<open>
  The bytes a word array stands for: its words in big-endian order, cut at \<open>sigBytes\<close>.
  The library's hashing and ciphers read a word array through these bytes.
\<close>

definition wordBytes :: "32 word \<Rightarrow> bytes" where
  "wordBytes w = [ucast (drop_bit 24 w), ucast (drop_bit 16 w), ucast (drop_bit 8 w), ucast w]"

definition wordArrayBytes :: "wordArray \<Rightarrow> bytes" where
  "wordArrayBytes wa = take (sigBytes wa) (concat (map wordBytes (words wa)))"

section \<open>Cryptographic libraries\<close>

text \<open>
  The primitives of CryptoJS and @noble/secp256k1 that the program calls; they are
  parameters of the model, read through the bytes of their arguments:
  \<^item> \<open>PBKDF2 password salt keySize iterations\<close>, \<open>keySize\<close> in 32-bit words;
  \<^item> the AES block cipher on one 16-byte block under a key, and its inverse;
  \<^item> \<open>SHA256 message\<close> and \<open>HmacSHA256 message key\<close>;
  \<^item> \<open>secp_sign hmac msgHash privKey\<close>: \<^verbatim>\<open>sign(msgHash, privKey).toCompactRawBytes()\<close>
    with \<open>hmac\<close> installed as \<^verbatim>\<open>etc.hmacSha256Sync\<close>, \<open>None\<close> when it throws;
  \<^item> \<open>secp_getPublicKey privKey isCompressed\<close>, \<open>None\<close> when it throws.
\<close>

record cryptolib =
  PBKDF2 :: "string \<Rightarrow> bytes \<Rightarrow> nat \<Rightarrow> nat \<Rightarrow> bytes"
  AES_encryptBlock :: "bytes \<Rightarrow> bytes \<Rightarrow> bytes"
  AES_decryptBlock :: "bytes \<Rightarrow> bytes \<Rightarrow> bytes"
  SHA256 :: "bytes \<Rightarrow> bytes"
  HmacSHA256 :: "bytes \<Rightarrow> bytes \<Rightarrow> bytes"
  secp_sign :: "(bytes \<Rightarrow> bytes list \<Rightarrow> bytes) \<Rightarrow> bytes \<Rightarrow> bytes \<Rightarrow> bytes option"
  secp_getPublicKey :: "bytes \<Rightarrow> bool \<Rightarrow> bytes option"

subsection \<open>AES in CBC mode with PKCS7 padding, as CryptoJS composes them\<close>

text \<open>\<^verbatim>\<open>CryptoJS.pad.Pkcs7.pad\<close> for the block size of 16 bytes.\<close>

definition Pkcs7_pad :: "bytes \<Rightarrow> bytes" where
  "Pkcs7_pad d = (let nPaddingBytes = 16 - length d mod 16
                  in d @ replicate nPaddingBytes (of_nat nPaddingBytes))"

text \<open>
  \<^verbatim>\<open>CryptoJS.pad.Pkcs7.unpad\<close> on whole blocks: the last byte is taken as the padding
  length and subtracted from the byte count without any validation; a count that falls
  below zero yields no bytes.
\<close>

definition Pkcs7_unpad :: "bytes \<Rightarrow> bytes" where
  "Pkcs7_unpad d = (let nPaddingBytes = (if d = [] then 0 else unat (last d))
                    in take (length d - nPaddingBytes) d)"

definition xorBlock :: "bytes \<Rightarrow> bytes \<Rightarrow> bytes" where
  "xorBlock a b = map2 (XOR) a b"

fun blocks16 :: "bytes \<Rightarrow> bytes list" where
  "blocks16 bs = (if bs = [] then [] else take 16 bs # blocks16 (drop 16 bs))"

declare blocks16.simps [simp del]

fun CBC_encrypt :: "(bytes \<Rightarrow> bytes) \<Rightarrow> bytes \<Rightarrow> bytes list \<Rightarrow> bytes" where
  "CBC_encrypt E prevBlock [] = []"
| "CBC_encrypt E prevBlock (b # bs) =
     (let c = E (xorBlock b prevBlock) in c @ CBC_encrypt E c bs)"

fun CBC_decrypt :: "(bytes \<Rightarrow> bytes) \<Rightarrow> bytes \<Rightarrow> bytes list \<Rightarrow> bytes" where
  "CBC_decrypt D prevBlock [] = []"
| "CBC_decrypt D prevBlock (c # cs) = xorBlock (D c) prevBlock @ CBC_decrypt D c cs"

text \<open>
  \<^verbatim>\<open>CryptoJS.AES.encrypt(message, key, {iv, mode: CBC, padding: Pkcs7})\<close> with a word
  array as key: the ciphertext bytes. With such a key there is no salt, so the result's
  \<^verbatim>\<open>toString()\<close> is the Base64 of the ciphertext alone.
\<close>

definition AES_encrypt :: "cryptolib \<Rightarrow> string \<Rightarrow> bytes \<Rightarrow> bytes \<Rightarrow> bytes" where
  "AES_encrypt lib message key iv =
     CBC_encrypt (AES_encryptBlock lib key) iv (blocks16 (Pkcs7_pad (str_bytes message)))"

text \<open>
  \<^verbatim>\<open>CryptoJS.AES.decrypt({ciphertext}, key, {iv, mode: CBC, padding: Pkcs7})\<close> for a
  ciphertext of whole blocks.
\<close>

definition AES_decrypt :: "cryptolib \<Rightarrow> bytes \<Rightarrow> bytes \<Rightarrow> bytes \<Rightarrow> bytes" where
  "AES_decrypt lib ciphertext key iv =
     Pkcs7_unpad (CBC_decrypt (AES_decryptBlock lib key) iv (blocks16 ciphertext))"

section \<open>Vault: encryptPrivateKey and decryptPrivateKey\<close>

text \<open>
  \<^verbatim>\<open>Crypto.getRandomBytesAsync(n)\<close> draws from the bytes the random source will
  produce next; it fails when the source has fewer than \<open>n\<close> left.
\<close>

definition getRandomBytesAsync :: "nat \<Rightarrow> bytes \<Rightarrow> (bytes \<times> bytes) option" where
  "getRandomBytesAsync n source =
     (if length source < n then None else Some (take n source, drop n source))"

text \<open>
  The result is the blob, or \<open>None\<close> for the \<^verbatim>\<open>undefined\<close> of the catch branch,
  together with what is left of the random source.
\<close>

definition encryptPrivateKey ::
  "cryptolib \<Rightarrow> string \<Rightarrow> string \<Rightarrow> bytes \<Rightarrow> string option \<times> bytes" where
  "encryptPrivateKey lib privKey pinCode source =
     (case getRandomBytesAsync 16 source of
        None \<Rightarrow> (None, source)
      | Some (saltBytes, source1) \<Rightarrow>
          (case getRandomBytesAsync 16 source1 of
             None \<Rightarrow> (None, source1)
           | Some (ivBytes, source2) \<Rightarrow>
               (let salt = uint8ArrayToWordArray saltBytes;
                    iv = uint8ArrayToWordArray ivBytes;
                    key = PBKDF2 lib (padStart 6 CHR ''0'' pinCode) (wordArrayBytes salt) (256 div 32) 1000;
                    encrypted = AES_encrypt lib privKey key (wordArrayBytes iv);
                    combinedData =
                      bytesToHex saltBytes @ bytesToHex ivBytes @ Base64_stringify encrypted
                in (Some combinedData, source2))))"

text \<open>
  What an asynchronous function of the program resolves to: a value, the
  \<^verbatim>\<open>undefined\<close> left by its catch branch, or \<open>Unmodelled\<close> when the input takes a
  library outside the part of it that is modelled here.
\<close>

datatype 'a outcome = Returned 'a | Caught | Unmodelled

text \<open>
  \<open>decryptPrivateKey\<close> is modelled on blobs whose first 64 characters are hex digits and
  whose remainder decodes to whole cipher blocks, as every blob that \<open>encryptPrivateKey\<close>
  writes does. \<open>Caught\<close> is the branch that alerts "Invalid PIN." and returns
  \<^verbatim>\<open>undefined\<close>; the only call that throws is the UTF-8 decoding.
\<close>

definition decryptPrivateKey :: "cryptolib \<Rightarrow> string \<Rightarrow> string \<Rightarrow> string outcome" where
  "decryptPrivateKey lib encPrivKey pinCode =
     (let saltHex = slice_str 0 32 encPrivKey;
          ivHex = slice_str 32 64 encPrivKey;
          encryptedData = slice_from 64 encPrivKey
      in case (Hex_parse saltHex, Hex_parse ivHex) of
           (Some salt, Some iv) \<Rightarrow>
             (let key = PBKDF2 lib (padStart 6 CHR ''0'' pinCode) salt (256 div 32) 1000;
                  ciphertext = Base64_parse encryptedData
              in if length iv = 16 \<and> length ciphertext mod 16 = 0 then
                   (let decrypted = AES_decrypt lib ciphertext key iv
                    in if utf8_wellformed decrypted then Returned (bytes_str decrypted)
                       else Caught)
                 else Unmodelled)
         | _ \<Rightarrow> Unmodelled)"

section \<open>add-device: registration\<close>

text \<open>\<^verbatim>\<open>/^\d{6}$/.test(pin)\<close> and \<^verbatim>\<open>/^[0-9a-fA-F]{64}$/.test(privateKey)\<close>\<close>

definition isSixDigits :: "string \<Rightarrow> bool" where
  "isSixDigits s \<longleftrightarrow> length s = 6 \<and> list_all isDigit s"

definition isPrivateKeyHex :: "string \<Rightarrow> bool" where
  "isPrivateKeyHex s \<longleftrightarrow> length s = 64 \<and> list_all isHexDigit s"

definition validateInputs ::
  "(string \<Rightarrow> bool) \<Rightarrow> string \<Rightarrow> string \<Rightarrow> string \<Rightarrow> string \<Rightarrow> string option" where
  "validateInputs validURL privateKey nameInput urlInput pin =
     (if trim privateKey = [] then Some ''Private key is required''
      else if trim nameInput = [] then Some ''Device name is required''
      else if trim urlInput = [] then Some ''Relay URL is required''
      else if length pin \<noteq> 6 \<or> \<not> isSixDigits pin then Some ''PIN must be exactly 6 digits''
      else if \<not> isPrivateKeyHex privateKey then Some ''Invalid private key format''
      else if \<not> validURL urlInput then Some ''Invalid relay URL format''
      else None)"

text \<open>
  \<^verbatim>\<open>privKey.match(/.{1,2}/g)\<close>: pairs of characters, a line terminator ending the
  run it is in; no match at all gives the empty array.
\<close>

definition isLineTerminator :: "char \<Rightarrow> bool" where
  "isLineTerminator c \<longleftrightarrow> c = CHR 0x0A \<or> c = CHR 0x0D"

fun matchPairs :: "string \<Rightarrow> string list" where
  "matchPairs [] = []"
| "matchPairs [a] = (if isLineTerminator a then [] else [[a]])"
| "matchPairs (a # b # r) =
     (if isLineTerminator a then matchPairs (b # r)
      else if isLineTerminator b then [a] # matchPairs r
      else [a, b] # matchPairs r)"

text \<open>
  \<open>None\<close> is the \<^verbatim>\<open>undefined\<close> of the catch branch. A \<^verbatim>\<open>NaN\<close> stored into the
  \<^verbatim>\<open>Uint8Array\<close> is 0.
\<close>

definition getPublicKey :: "cryptolib \<Rightarrow> string \<Rightarrow> string option" where
  "getPublicKey lib privKey =
     (let privKeyBytes =
            map (\<lambda>byte. case parseInt16 byte of None \<Rightarrow> 0 | Some v \<Rightarrow> word_of_int v)
              (matchPairs privKey)
      in case secp_getPublicKey lib privKeyBytes False of
           None \<Rightarrow> None
         | Some pubKeyBytes \<Rightarrow>
             Some (concat (map (\<lambda>byte. padStart 2 CHR ''0'' (toString16 (unat byte))) pubKeyBytes)))"

definition loadExistingDevices :: "devices_file \<Rightarrow> device list" where
  "loadExistingDevices f = (case f of Stored devices \<Rightarrow> devices | _ \<Rightarrow> [])"

text \<open>
  The alert shown, the file afterwards, and what is left of the random source. The tests
  \<^verbatim>\<open>!pubkey\<close> and \<^verbatim>\<open>!encryptedPrivKey\<close> reject \<^verbatim>\<open>undefined\<close> and the empty
  string alike.
\<close>

definition saveDevice ::
  "cryptolib \<Rightarrow> (string \<Rightarrow> bool) \<Rightarrow> string \<Rightarrow> string \<Rightarrow> string \<Rightarrow> string \<Rightarrow> bytes \<Rightarrow> devices_file \<Rightarrow>
   alert \<times> devices_file \<times> bytes" where
  "saveDevice lib validURL privateKey nameInput urlInput pin source f =
     (case validateInputs validURL privateKey nameInput urlInput pin of
        Some validationError \<Rightarrow> (Alert ''Validation Error'' validationError, f, source)
      | None \<Rightarrow>
          (case getPublicKey lib privateKey of
             None \<Rightarrow> (Alert ''Error'' ''Failed to generate public key'', f, source)
           | Some pk \<Rightarrow>
               if pk = [] then (Alert ''Error'' ''Failed to generate public key'', f, source)
               else
               (case encryptPrivateKey lib privateKey pin source of
                  (encrypted, source') \<Rightarrow>
                    (let devices = loadExistingDevices f
                     in if list_ex (\<lambda>d. deviceName d = nameInput) devices then
                          (Alert ''Error'' ''A device with this name already exists'', f, source')
                        else if list_ex (\<lambda>d. pubkey d = pk) devices then
                          (Alert ''Error'' ''A device with this public key already exists'', f, source')
                        else
                          (case encrypted of
                             None \<Rightarrow> (Alert ''Error'' ''Failed to encrypt private key'', f, source')
                           | Some enc \<Rightarrow>
                               if enc = [] then
                                 (Alert ''Error'' ''Failed to encrypt private key'', f, source')
                               else
                                 (let newDevice = \<lparr>pubkey = pk, deviceName = nameInput,
                                                    relayUrl = urlInput, encryptedPrivKey = enc\<rparr>
                                  in (Alert ''Success'' ''Device added successfully'',
                                      Stored (devices @ [newDevice]), source')))))))"

section \<open>manage-device: the actions offered\<close>

definition pickerActions :: "string list" where
  "pickerActions = [''signout'', ''shutdown'', ''restart'', ''sleep'']"

section \<open>sign-send: signing and sending a command\<close>

text \<open>
  The function installed as \<^verbatim>\<open>etc.hmacSha256Sync\<close>: the messages are appended to a
  word array that starts out as the key, and that whole array is what is authenticated.
\<close>

definition hmacSha256Sync :: "cryptolib \<Rightarrow> bytes \<Rightarrow> bytes list \<Rightarrow> bytes" where
  "hmacSha256Sync lib key messages =
     (let hash = foldl (\<lambda>hash message. hash @ message) key messages;
          hmac = HmacSHA256 lib hash key
      in bufferFromHex (hexEncode hmac))"

record sign_result =
  publicKeyHex :: string
  signatureHex :: string
  command :: string

text \<open>
  \<open>None\<close> is the \<^verbatim>\<open>undefined\<close> of the catch branch. \<^verbatim>\<open>getPublicKey\<close> is called with
  one argument; in the 2.x line of @noble/secp256k1 (the one with \<^verbatim>\<open>etc\<close> and
  \<^verbatim>\<open>toCompactRawBytes\<close>) the second, \<^verbatim>\<open>isCompressed\<close>, defaults to true.
\<close>

definition signCommand :: "cryptolib \<Rightarrow> string \<Rightarrow> string \<Rightarrow> sign_result option" where
  "signCommand lib cmd privateKeyHex =
     (let privateKeyBytes = bufferFromHex privateKeyHex;
          messageBytes = str_bytes cmd;
          messageHash = bufferFromHex (hexEncode (SHA256 lib messageBytes))
      in case secp_sign lib (hmacSha256Sync lib) messageHash privateKeyBytes of
           None \<Rightarrow> None
         | Some signature \<Rightarrow>
             (case secp_getPublicKey lib privateKeyBytes True of
                None \<Rightarrow> None
              | Some publicKey \<Rightarrow>
                  Some \<lparr>publicKeyHex = ''04'' @ hexEncode publicKey,
                        signatureHex = hexEncode signature,
                        command = cmd\<rparr>))"

text \<open>
  \<^verbatim>\<open>Date.prototype.toISOString\<close> on the UTC fields of an instant, as ECMAScript lays it
  out: \<^verbatim>\<open>YYYY-MM-DDTHH:mm:ss.sssZ\<close>, the year with a sign and six digits outside
  0 to 9999.
\<close>

record utc_date =
  year :: int
  month :: nat
  day :: nat
  hours :: nat
  minutes :: nat
  seconds :: nat
  milliseconds :: nat

fun fixedDec :: "nat \<Rightarrow> nat \<Rightarrow> string" where
  "fixedDec 0 n = []"
| "fixedDec (Suc k) n = fixedDec k (n div 10) @ [char_of (48 + n mod 10)]"

definition toISOString :: "utc_date \<Rightarrow> string" where
  "toISOString d =
     (if 0 \<le> year d \<and> year d \<le> 9999 then fixedDec 4 (nat (year d))
      else (if year d < 0 then ''-'' else ''+'') @ fixedDec 6 (nat \<bar>year d\<bar>)) @
     ''-'' @ fixedDec 2 (month d) @ ''-'' @ fixedDec 2 (day d) @ ''T'' @
     fixedDec 2 (hours d) @ '':'' @ fixedDec 2 (minutes d) @ '':'' @ fixedDec 2 (seconds d) @
     ''.'' @ fixedDec 3 (milliseconds d) @ ''Z''"

text \<open>The field ranges of the UTC components of a date.\<close>

definition validDate :: "utc_date \<Rightarrow> bool" where
  "validDate d \<longleftrightarrow>
     1 \<le> month d \<and> month d \<le> 12 \<and> 1 \<le> day d \<and> day d \<le> 31 \<and> hours d \<le> 23 \<and>
     minutes d \<le> 59 \<and> seconds d \<le> 59 \<and> milliseconds d \<le> 999"

text \<open>The number a string of decimal digits denotes.\<close>

definition decVal :: "string \<Rightarrow> nat" where
  "decVal s = foldl (\<lambda>a c. 10 * a + (of_char c - 48)) 0 s"

text \<open>
  handleSign's \<open>currentTime\<close>:
  \<^verbatim>\<open>date.toISOString().replace(/[-:.TZ]/g, "").slice(0, 14)\<close>
\<close>

definition currentTime :: "string \<Rightarrow> string" where
  "currentTime isoNow = slice_str 0 14 (filter (\<lambda>c. c \<notin> set ''-:.TZ'') isoNow)"

text \<open>The request posted to the relay, and what \<^verbatim>\<open>fetch\<close> makes of it.\<close>

record send_request =
  url :: string
  body_pubkey :: string
  body_signature :: string
  body_command :: string

datatype post_result = PostRejected | PostNotOk | PostOk

text \<open>What one press of the button does: alerts in order, the request, the success modal.\<close>

record sign_flow =
  alerts :: "alert list"
  request :: "send_request option"
  showSuccessModal :: bool

text \<open>
  \<open>isoNow\<close> is \<^verbatim>\<open>new Date().toISOString()\<close>; \<open>dev\<close> is the device state, \<open>None\<close> while
  it is not loaded; an absent action is the empty string. A failed decryption alerts
  twice, in \<open>decryptPrivateKey\<close> and here, and a failed signature likewise.
\<close>

definition handleSign ::
  "cryptolib \<Rightarrow> (send_request \<Rightarrow> post_result) \<Rightarrow> string \<Rightarrow> device option \<Rightarrow> string \<Rightarrow> string \<Rightarrow>
   sign_flow outcome" where
  "handleSign lib post isoNow dev action pin =
     (case dev of
        None \<Rightarrow>
          Returned \<lparr>alerts = [Alert ''Error'' ''Missing device or action data.''],
                    request = None, showSuccessModal = False\<rparr>
      | Some device \<Rightarrow>
          if action = [] then
            Returned \<lparr>alerts = [Alert ''Error'' ''Missing device or action data.''],
                      request = None, showSuccessModal = False\<rparr>
          else if length pin \<noteq> 6 \<or> \<not> isSixDigits pin then
            Returned \<lparr>alerts = [Alert ''Error'' ''PIN must be exactly 6 digits.''],
                      request = None, showSuccessModal = False\<rparr>
          else
            (if length (currentTime isoNow) \<noteq> 14 then
                  Returned \<lparr>alerts = [Alert ''Error'' ''Failed to get current time.''],
                            request = None, showSuccessModal = False\<rparr>
                else
                  (let fullCommand = action @ ''+'' @ currentTime isoNow
                   in case decryptPrivateKey lib (encryptedPrivKey device) pin of
                        Unmodelled \<Rightarrow> Unmodelled
                      | Caught \<Rightarrow>
                          Returned \<lparr>alerts = [Alert ''Error'' ''Invalid PIN.'',
                                              Alert ''Error'' ''Invalid PIN.''],
                                    request = None, showSuccessModal = False\<rparr>
                      | Returned privKey \<Rightarrow>
                          if privKey = [] then
                            Returned \<lparr>alerts = [Alert ''Error'' ''Invalid PIN.''],
                                      request = None, showSuccessModal = False\<rparr>
                          else
                            (case signCommand lib fullCommand privKey of
                               None \<Rightarrow>
                                 Returned \<lparr>alerts = [Alert ''Error'' ''Failed to Sign Command.'',
                                                     Alert ''Error'' ''Failed to sign command.''],
                                           request = None, showSuccessModal = False\<rparr>
                             | Some result \<Rightarrow>
                                 (let relay = (if relayUrl device \<noteq> [] \<and>
                                                  last (relayUrl device) = CHR ''/''
                                               then relayUrl device else relayUrl device @ ''/'');
                                      fullRelayUrl = relay @ ''api/request/send-command'';
                                      req = \<lparr>url = fullRelayUrl, body_pubkey = pubkey device,
                                              body_signature = signatureHex result,
                                              body_command = command result\<rparr>
                                  in case post req of
                                       PostOk \<Rightarrow>
                                         Returned \<lparr>alerts = [], request = Some req,
                                                   showSuccessModal = True\<rparr>
                                     | PostNotOk \<Rightarrow>
                                         Returned \<lparr>alerts = [Alert ''Error''
                                                      ''Failed to sign and send command.''],
                                                   request = Some req, showSuccessModal = False\<rparr>
                                     | PostRejected \<Rightarrow>
                                         Returned \<lparr>alerts = [], request = Some req,
                                                   showSuccessModal = False\<rparr>)))))"

section \<open>A library instance for running the model\<close>

text \<open>
  To run the model on concrete inputs the parameters need values. In \<open>testLib\<close> the two
  encodings of the public key of the private key 1 are the real ones (the generator of
  secp256k1, compressed and uncompressed). Everything else is a simple stand-in: public
  keys of other 32-byte private keys that copy the key, an XOR block cipher, a key
  derivation and hashes that copy their input, a signature made of the message hash and
  the installed HMAC. No general theorem below depends on it.
\<close>

definition generatorX :: bytes where
  "generatorX =
    [0x79, 0xBE, 0x66, 0x7E, 0xF9, 0xDC, 0xBB, 0xAC,
     0x55, 0xA0, 0x62, 0x95, 0xCE, 0x87, 0x0B, 0x07,
     0x02, 0x9B, 0xFC, 0xDB, 0x2D, 0xCE, 0x28, 0xD9,
     0x59, 0xF2, 0x81, 0x5B, 0x16, 0xF8, 0x17, 0x98]"

definition generatorY :: bytes where
  "generatorY =
    [0x48, 0x3A, 0xDA, 0x77, 0x26, 0xA3, 0xC4, 0x65,
     0x5D, 0xA4, 0xFB, 0xFC, 0x0E, 0x11, 0x08, 0xA8,
     0xFD, 0x17, 0xB4, 0x48, 0xA6, 0x85, 0x54, 0x19,
     0x9C, 0x47, 0xD0, 0x8F, 0xFB, 0x10, 0xD4, 0xB8]"

definition fit :: "nat \<Rightarrow> bytes \<Rightarrow> bytes" where
  "fit n bs = take n (bs @ replicate n 0)"

definition testLib :: cryptolib where
  "testLib =
     \<lparr>PBKDF2 = (\<lambda>password salt keySize iterations. fit (4 * keySize) (str_bytes password @ salt)),
      AES_encryptBlock = (\<lambda>key block. xorBlock block (fit 16 key)),
      AES_decryptBlock = (\<lambda>key block. xorBlock block (fit 16 key)),
      SHA256 = (\<lambda>message. fit 32 message),
      HmacSHA256 = (\<lambda>message key. fit 32 message),
      secp_sign = (\<lambda>hmac msgHash privKey.
                     if length privKey = 32
                     then Some (fit 64 (fit 32 msgHash @ hmac privKey [msgHash]))
                     else None),
      secp_getPublicKey = (\<lambda>privKey isCompressed.
                     if privKey = replicate 31 0 @ [1]
                     then Some (if isCompressed then 0x02 # generatorX
                                else 0x04 # generatorX @ generatorY)
                     else if length privKey = 32
                     then Some (if isCompressed then 0x02 # privKey else 0x04 # privKey @ privKey)
                     else None)\<rparr>"

section \<open>Properties of the registry\<close>

lemma validateInputs_edit_sample:
  "validateInputs_edit (\<lambda>u. True) ''desk'' ''https://r.example'' = None"
  by code_simp

text \<open>
  What \<open>saveChanges\<close> does when the form validates and the file holds a device array: it
  writes an array of the same length in which every record keeps its pubkey and its
  encrypted key, records with another pubkey are unchanged, and records with the given
  pubkey carry the new name and relay URL.
\<close>

lemma saveChanges_replaces_name_and_url:
  assumes "validateInputs_edit validURL nameInput urlInput = None"
  shows "\<exists>devices'.
           saveChanges validURL pk nameInput urlInput (Stored devices) =
             (Alert ''Success'' ''Device updated successfully'', Stored devices') \<and>
           length devices' = length devices \<and>
           (\<forall>i<length devices.
              pubkey (devices' ! i) = pubkey (devices ! i) \<and>
              encryptedPrivKey (devices' ! i) = encryptedPrivKey (devices ! i) \<and>
              (pubkey (devices ! i) \<noteq> pk \<longrightarrow> devices' ! i = devices ! i) \<and>
              (pubkey (devices ! i) = pk \<longrightarrow>
                 deviceName (devices' ! i) = nameInput \<and> relayUrl (devices' ! i) = urlInput))"
proof -
  let ?upd = "\<lambda>d. if pubkey d = pk then d\<lparr>deviceName := nameInput, relayUrl := urlInput\<rparr> else d"
  have run: "saveChanges validURL pk nameInput urlInput (Stored devices) =
               (Alert ''Success'' ''Device updated successfully'', Stored (map ?upd devices))"
    using assms by (simp add: saveChanges_def)
  show ?thesis
    using run by (intro exI [of _ "map ?upd devices"]) simp
qed

text \<open>
  C9 fails on the code: the claim has the update fail with a not-found error when no
  record has the pubkey. \<open>saveChanges\<close> never tests whether a record matched: on a registry
  whose only record has another pubkey it rewrites the file as it was and announces
  "Device updated successfully".
\<close>

theorem saveChanges_unknown_pubkey_succeeds:
  "pubkey \<lparr>pubkey = ''02aa'', deviceName = ''old'', relayUrl = ''https://o.example'',
           encryptedPrivKey = ''k1''\<rparr> \<noteq> ''03bb'' \<and>
   saveChanges (\<lambda>u. True) ''03bb'' ''desk'' ''https://r.example''
     (Stored [\<lparr>pubkey = ''02aa'', deviceName = ''old'', relayUrl = ''https://o.example'',
                encryptedPrivKey = ''k1''\<rparr>]) =
   (Alert ''Success'' ''Device updated successfully'',
    Stored [\<lparr>pubkey = ''02aa'', deviceName = ''old'', relayUrl = ''https://o.example'',
               encryptedPrivKey = ''k1''\<rparr>])"
  using validateInputs_edit_sample by (simp add: saveChanges_def)

section \<open>Properties of the status check\<close>

lemma online_flag: "diffInSeconds now t \<le> 60 \<longleftrightarrow> now - t < 61000"
  unfolding diffInSeconds_def by linarith

lemma checkDeviceStatus_answered:
  assumes "network (cleanURL (relayUrl dev) @ ''/api/request/last-active'') (pubkey dev) =
             HttpOk (Some lastFetched)"
    and "dateParse
           (slice_str 0 4 lastFetched @ ''-'' @ slice_str 4 6 lastFetched @ ''-'' @
            slice_str 6 8 lastFetched @ ''T'' @ slice_str 8 10 lastFetched @ '':'' @
            slice_str 10 12 lastFetched @ '':'' @ slice_str 12 14 lastFetched @ ''Z'') = Some t"
  shows "checkDeviceStatus dateParse network now dev prev =
           map (\<lambda>d. if pubkey d = pubkey dev
                     then d\<lparr>isOnline := (now - t < 61000), isLoading := False\<rparr>
                     else d) prev"
  using assms by (simp add: checkDeviceStatus_def online_flag)

text \<open>
  C10: when the relay answers with a last-active timestamp that the engine parses to the
  time \<open>t\<close> (in milliseconds), the rows of that device are marked online exactly when the
  whole-second difference, the floor of \<open>(now - t) / 1000\<close>, is at most 60. Whenever \<open>now\<close>
  is 60 whole seconds and any fraction of a second after \<open>t\<close> the rows are marked online,
  and whenever it is 61 whole seconds and any fraction after \<open>t\<close> they are marked offline.
  Rows of other devices are left as they are.
\<close>

theorem online_iff_diff_le_60:
  assumes "network (cleanURL (relayUrl dev) @ ''/api/request/last-active'') (pubkey dev) =
             HttpOk (Some lastFetched)"
    and "dateParse
           (slice_str 0 4 lastFetched @ ''-'' @ slice_str 4 6 lastFetched @ ''-'' @
            slice_str 6 8 lastFetched @ ''T'' @ slice_str 8 10 lastFetched @ '':'' @
            slice_str 10 12 lastFetched @ '':'' @ slice_str 12 14 lastFetched @ ''Z'') = Some t"
  shows "checkDeviceStatus dateParse network now dev prev =
           map (\<lambda>d. if pubkey d = pubkey dev
                     then d\<lparr>isOnline := ((now - t) div 1000 \<le> 60), isLoading := False\<rparr>
                     else d) prev \<and>
         (\<forall>ms. 0 \<le> ms \<and> ms < 1000 \<longrightarrow>
            checkDeviceStatus dateParse network (t + 60 * 1000 + ms) dev prev =
              map (\<lambda>d. if pubkey d = pubkey dev then d\<lparr>isOnline := True, isLoading := False\<rparr>
                        else d) prev) \<and>
         (\<forall>ms. 0 \<le> ms \<and> ms < 1000 \<longrightarrow>
            checkDeviceStatus dateParse network (t + 61 * 1000 + ms) dev prev =
              map (\<lambda>d. if pubkey d = pubkey dev then d\<lparr>isOnline := False, isLoading := False\<rparr>
                        else d) prev)"
proof -
  have "(now - t) div 1000 \<le> 60 \<longleftrightarrow> now - t < 61000"
    by linarith
  then show ?thesis
    using checkDeviceStatus_answered
      [where network = network and dateParse = dateParse and dev = dev
         and lastFetched = lastFetched and t = t and prev = prev, OF assms]
    by simp
qed

theorem online_iff_diff_le_60_witness:
  "checkDeviceStatus
     (\<lambda>s. if s = ''2024-01-01T00:00:00Z'' then Some 1704067200000 else None)
     (\<lambda>url pk. if url = ''https://r.example/api/request/last-active''
                then HttpOk (Some ''20240101000000'') else NetworkFailure)
     1704067260999
     \<lparr>pubkey = ''02aa'', deviceName = ''desk'', relayUrl = ''https://r.example/'',
       encryptedPrivKey = ''k1''\<rparr>
     [\<lparr>pubkey = ''02aa'', deviceName = ''desk'', relayUrl = ''https://r.example/'',
        encryptedPrivKey = ''k1'', isOnline = False, isLoading = True\<rparr>,
      \<lparr>pubkey = ''03bb'', deviceName = ''lap'', relayUrl = ''https://r.example/'',
        encryptedPrivKey = ''k2'', isOnline = False, isLoading = True\<rparr>] =
   [\<lparr>pubkey = ''02aa'', deviceName = ''desk'', relayUrl = ''https://r.example/'',
      encryptedPrivKey = ''k1'', isOnline = True, isLoading = False\<rparr>,
    \<lparr>pubkey = ''03bb'', deviceName = ''lap'', relayUrl = ''https://r.example/'',
      encryptedPrivKey = ''k2'', isOnline = False, isLoading = True\<rparr>] \<and>
   checkDeviceStatus
     (\<lambda>s. if s = ''2024-01-01T00:00:00Z'' then Some 1704067200000 else None)
     (\<lambda>url pk. if url = ''https://r.example/api/request/last-active''
                then HttpOk (Some ''20240101000000'') else NetworkFailure)
     1704067261000
     \<lparr>pubkey = ''02aa'', deviceName = ''desk'', relayUrl = ''https://r.example/'',
       encryptedPrivKey = ''k1''\<rparr>
     [\<lparr>pubkey = ''02aa'', deviceName = ''desk'', relayUrl = ''https://r.example/'',
        encryptedPrivKey = ''k1'', isOnline = True, isLoading = True\<rparr>] =
   [\<lparr>pubkey = ''02aa'', deviceName = ''desk'', relayUrl = ''https://r.example/'',
      encryptedPrivKey = ''k1'', isOnline = False, isLoading = False\<rparr>] \<and>
   diffInSeconds 1704067260999 1704067200000 = 60 \<and>
   diffInSeconds 1704067261000 1704067200000 = 61"
proof -
  let ?network = "\<lambda>url pk. if url = ''https://r.example/api/request/last-active''
                    then HttpOk (Some ''20240101000000'') else NetworkFailure"
  let ?dateParse = "\<lambda>s. if s = ''2024-01-01T00:00:00Z'' then Some (1704067200000 :: int) else None"
  let ?dev = "\<lparr>pubkey = ''02aa'', deviceName = ''desk'', relayUrl = ''https://r.example/'',
                encryptedPrivKey = ''k1''\<rparr>"
  have n: "?network (cleanURL (relayUrl ?dev) @ ''/api/request/last-active'') (pubkey ?dev) =
             HttpOk (Some ''20240101000000'')"
    by (simp add: cleanURL_def)
  have p: "?dateParse
             (slice_str 0 4 ''20240101000000'' @ ''-'' @ slice_str 4 6 ''20240101000000'' @ ''-'' @
              slice_str 6 8 ''20240101000000'' @ ''T'' @ slice_str 8 10 ''20240101000000'' @ '':'' @
              slice_str 10 12 ''20240101000000'' @ '':'' @ slice_str 12 14 ''20240101000000'' @ ''Z'')
           = Some 1704067200000"
    by (simp add: slice_str_def)
  have d: "diffInSeconds 1704067260999 1704067200000 = 60"
      "diffInSeconds 1704067261000 1704067200000 = 61"
    by (simp_all add: diffInSeconds_def)
  note inst = online_iff_diff_le_60 [of ?network ?dev "''20240101000000''" ?dateParse
      1704067200000, OF n p]
  show ?thesis
    using inst [of 1704067260999
        "[\<lparr>pubkey = ''02aa'', deviceName = ''desk'', relayUrl = ''https://r.example/'',
            encryptedPrivKey = ''k1'', isOnline = False, isLoading = True\<rparr>,
          \<lparr>pubkey = ''03bb'', deviceName = ''lap'', relayUrl = ''https://r.example/'',
            encryptedPrivKey = ''k2'', isOnline = False, isLoading = True\<rparr>]"]
      inst [of 1704067261000
        "[\<lparr>pubkey = ''02aa'', deviceName = ''desk'', relayUrl = ''https://r.example/'',
            encryptedPrivKey = ''k1'', isOnline = True, isLoading = True\<rparr>]"]
      d
    by simp
qed

section \<open>Properties of the encodings\<close>

subsection \<open>Hexadecimal, word arrays, Base64\<close>


lemma hexVal_hexDigit_all: "\<forall>n\<in>set [0..<16]. hexVal (hexDigit n) = Some n"
  by code_simp

lemma hexVal_hexDigit: "n < 16 \<Longrightarrow> hexVal (hexDigit n) = Some n"
  using hexVal_hexDigit_all by simp

lemma toString16_byte:
  "n < 256 \<Longrightarrow> padStart 2 CHR ''0'' (toString16 n) = [hexDigit (n div 16), hexDigit (n mod 16)]"
proof (cases "n < 16")
  case True
  then show ?thesis
    by (subst toString16.simps) (simp add: padStart_def hexDigit_def)
next
  case False
  assume "n < 256"
  then have "n div 16 < 16" by simp
  with False show ?thesis
    by (subst toString16.simps, subst toString16.simps) (simp add: padStart_def)
qed

lemma bytesToHex_hexEncode: "bytesToHex bs = hexEncode bs"
proof -
  have "unat b < 256" for b :: byte
    using unsigned_less [of b] by simp
  then show ?thesis
    by (simp add: bytesToHex_def hexEncode_def toString16_byte)
qed

lemma length_hexEncode: "length (hexEncode bs) = 2 * length bs"
  by (induction bs) (simp_all add: hexEncode_def)

lemma Hex_parse_hexEncode: "Hex_parse (hexEncode bs) = Some bs"
proof (induction bs)
  case Nil
  then show ?case by (simp add: hexEncode_def)
next
  case (Cons b bs)
  have lt: "unat b < 256" using unsigned_less [of b] by simp
  then have "unat b div 16 < 16" "unat b mod 16 < 16" by simp_all
  moreover have "(of_nat (16 * (unat b div 16) + unat b mod 16) :: byte) = b"
    by simp
  ultimately show ?case
    using Cons by (simp add: hexEncode_def hexVal_hexDigit)
qed

lemma wordBytes_pack:
  "wordBytes (push_bit 24 (ucast b0) OR push_bit 16 (ucast b1) OR push_bit 8 (ucast b2) OR ucast b3)
     = [b0, b1, b2, b3 :: byte]"
  unfolding wordBytes_def
  apply simp
  apply (intro conjI bit_word_eqI)
  apply (auto simp: bit_simps dest: bit_imp_le_length)
  done

lemmas wordBytes_pack1 = wordBytes_pack [of _ 0 0 0, simplified]
lemmas wordBytes_pack2 = wordBytes_pack [of _ _ 0 0, simplified]
lemmas wordBytes_pack3 = wordBytes_pack [of _ _ _ 0, simplified]

lemma take_concat_uint8ArrayToWords:
  "take (length arr) (concat (map wordBytes (uint8ArrayToWords arr))) = arr"
  by (induction arr rule: uint8ArrayToWords.induct)
    (simp_all add: wordBytes_pack wordBytes_pack1 wordBytes_pack2 wordBytes_pack3)

lemma wordArrayBytes_uint8ArrayToWordArray:
  "wordArrayBytes (uint8ArrayToWordArray arr) = arr"
  by (simp add: wordArrayBytes_def uint8ArrayToWordArray_def take_concat_uint8ArrayToWords)

lemma b64val_b64char: "n < 64 \<Longrightarrow> b64val (b64char n) = n"
  by (auto simp: b64val_def b64char_def Let_def)

lemma b64char_not_pad: "n < 64 \<Longrightarrow> b64char n \<noteq> CHR ''=''"
  by (auto simp: b64char_def char_of_eq_iff take_bit_eq_mod)

lemma byte_256: "(256 :: byte) = 0"
  by (simp add: word_eq_iff_unsigned [where ?'a = nat])

lemma unat_byte_less: "unat (b :: byte) < 256"
  using unsigned_less [of b] by simp

lemma sextets_less:
  "a < 256 \<Longrightarrow> b < 256 \<Longrightarrow> c < (256::nat) \<Longrightarrow>
   a div 4 < 64 \<and> a mod 4 * 16 + b div 16 < 64 \<and> b mod 16 * 4 + c div 64 < 64 \<and> c mod 64 < 64"
  by auto

lemma sextets_first: "b < (256::nat) \<Longrightarrow> a div 4 * 4 + (a mod 4 * 16 + b div 16) div 16 = a"
  by auto

lemma sextets_second:
  "c < (256::nat) \<Longrightarrow>
   (a mod 4 * 16 + b div 16) * 16 + (b mod 16 * 4 + c div 64) div 4 = a mod 4 * 256 + b"
  by auto

lemma sextets_third: "(b mod 16 * 4 + c div 64) * 64 + c mod 64 = b mod 16 * 256 + (c::nat)"
  by auto

lemma byte_of_nat_high: "(of_nat (k * 256 + unat b) :: byte) = b"
  by (simp add: byte_256)

lemma parseLoop_group:
  assumes "a < 256" "b < 256" "c < 256"
  shows "parseLoop (b64char (a div 4) # b64char (a mod 4 * 16 + b div 16) #
                    b64char (b mod 16 * 4 + c div 64) # b64char (c mod 64) # rest) =
         [of_nat a, of_nat (a mod 4 * 256 + b), of_nat (b mod 16 * 256 + c)] @ parseLoop rest"
proof -
  have r: "a div 4 < 64" "a mod 4 * 16 + b div 16 < 64" "b mod 16 * 4 + c div 64 < 64" "c mod 64 < 64"
    using sextets_less [OF assms] by simp_all
  show ?thesis
    by (simp only: parseLoop.simps b64val_b64char [OF r(1)] b64val_b64char [OF r(2)]
          b64val_b64char [OF r(3)] b64val_b64char [OF r(4)]
          sextets_first [OF assms(2)] sextets_second [OF assms(3)] sextets_third)
qed

lemma takeWhile_group:
  assumes "a < 256" "b < 256" "c < 256"
  shows "takeWhile (\<lambda>x. x \<noteq> CHR ''='')
           (b64char (a div 4) # b64char (a mod 4 * 16 + b div 16) #
            b64char (b mod 16 * 4 + c div 64) # b64char (c mod 64) # rest) =
         b64char (a div 4) # b64char (a mod 4 * 16 + b div 16) #
         b64char (b mod 16 * 4 + c div 64) # b64char (c mod 64) #
         takeWhile (\<lambda>x. x \<noteq> CHR ''='') rest"
proof -
  have r: "a div 4 < 64" "a mod 4 * 16 + b div 16 < 64" "b mod 16 * 4 + c div 64 < 64" "c mod 64 < 64"
    using sextets_less [OF assms] by simp_all
  show ?thesis
    by (simp only: takeWhile.simps b64char_not_pad [OF r(1)] b64char_not_pad [OF r(2)]
          b64char_not_pad [OF r(3)] b64char_not_pad [OF r(4)] not_False_eq_True if_True)
qed

lemma Base64_parse_stringify: "Base64_parse (Base64_stringify bs) = bs"
proof (induction bs rule: Base64_stringify.induct)
  case 1
  show ?case by (simp add: Base64_parse_def)
next
  case (2 a)
  have "unat a div 4 < 64" "unat a mod 4 * 16 < 64"
    using unat_byte_less [of a] by simp_all
  then show ?case
    by (simp add: Base64_parse_def b64val_b64char b64char_not_pad)
next
  case (3 a b)
  have r: "unat a div 4 < 64" "unat a mod 4 * 16 + unat b div 16 < 64" "unat b mod 16 * 4 < 64"
    using unat_byte_less [of a] unat_byte_less [of b] by simp_all
  have e: "unat a div 4 * 4 + (unat a mod 4 * 16 + unat b div 16) div 16 = unat a"
      "(unat a mod 4 * 16 + unat b div 16) * 16 + unat b mod 16 * 4 div 4 = unat a mod 4 * 256 + unat b"
    using unat_byte_less [of b] by simp_all
  have t: "takeWhile (\<lambda>x. x \<noteq> CHR ''='') (Base64_stringify [a, b]) =
             [b64char (unat a div 4), b64char (unat a mod 4 * 16 + unat b div 16),
              b64char (unat b mod 16 * 4)]"
    by (simp add: b64char_not_pad [OF r(1)] b64char_not_pad [OF r(2)] b64char_not_pad [OF r(3)])
  have "Base64_parse (Base64_stringify [a, b]) =
          [of_nat (unat a), of_nat (unat a mod 4 * 256 + unat b)]"
    unfolding Base64_parse_def t
    by (simp only: parseLoop.simps b64val_b64char [OF r(1)] b64val_b64char [OF r(2)]
          b64val_b64char [OF r(3)] e)
  then show ?case
    by (simp only: byte_of_nat_high of_nat_unat ucast_id)
next
  case (4 a b c r)
  have "Base64_parse (Base64_stringify (a # b # c # r)) =
          [of_nat (unat a), of_nat (unat a mod 4 * 256 + unat b),
           of_nat (unat b mod 16 * 256 + unat c)] @ Base64_parse (Base64_stringify r)"
    unfolding Base64_parse_def Base64_stringify.simps append_Cons append_Nil
    by (simp only: takeWhile_group [OF unat_byte_less unat_byte_less unat_byte_less]
          parseLoop_group [OF unat_byte_less unat_byte_less unat_byte_less] append_Cons append_Nil)
  then show ?case
    by (simp only: 4 byte_of_nat_high of_nat_unat ucast_id append_Cons append_Nil)
qed

subsection \<open>CBC mode and PKCS7 padding\<close>

lemma xorBlock_cancel: "length p = length b \<Longrightarrow> xorBlock (xorBlock b p) p = b"
  unfolding xorBlock_def
  by (induction b p rule: list_induct2') (simp_all add: xor.assoc)

lemma length_xorBlock: "length (xorBlock a b) = min (length a) (length b)"
  by (simp add: xorBlock_def)

lemma blocks16_append:
  "length c = 16 \<Longrightarrow> blocks16 (c @ r) = c # blocks16 r"
  by (subst blocks16.simps) auto

lemma blocks16_Nil: "blocks16 [] = []"
  by (simp add: blocks16.simps)

lemma concat_blocks16: "concat (blocks16 xs) = xs"
  by (induction xs rule: blocks16.induct) (subst blocks16.simps, simp)

lemma blocks16_Cons: "bs \<noteq> [] \<Longrightarrow> blocks16 bs = take 16 bs # blocks16 (drop 16 bs)"
  by (subst blocks16.simps) simp

lemma whole_blocks_ge:
  assumes "length bs mod 16 = 0" and "bs \<noteq> []"
  shows "16 \<le> length bs"
proof -
  have "length bs \<noteq> 0" using assms(2) by simp
  with assms(1) show ?thesis by presburger
qed

lemma length_blocks16:
  "length xs mod 16 = 0 \<Longrightarrow> \<forall>b\<in>set (blocks16 xs). length b = 16"
proof (induction xs rule: blocks16.induct)
  case (1 bs)
  show ?case
  proof (cases "bs = []")
    case True
    then show ?thesis by (simp add: blocks16_Nil)
  next
    case False
    have ge: "16 \<le> length bs"
      using "1.prems" False by (rule whole_blocks_ge)
    have "(length bs - 16) mod 16 = 0"
      using "1.prems" ge by presburger
    then have "length (drop 16 bs) mod 16 = 0"
      by (simp only: length_drop)
    then have ih: "\<forall>b\<in>set (blocks16 (drop 16 bs)). length b = 16"
      by (rule "1.IH" [OF False])
    have "length (take 16 bs) = 16"
      using ge by simp
    with ih show ?thesis
      by (simp only: blocks16_Cons [OF False] set_simps ball_simps) 
  qed
qed

lemma CBC_roundtrip:
  assumes inv: "\<And>b. length b = 16 \<Longrightarrow> length (E b) = 16 \<and> D (E b) = b"
  shows "length prev = 16 \<Longrightarrow> \<forall>b\<in>set bs. length b = 16 \<Longrightarrow>
         length (CBC_encrypt E prev bs) = 16 * length bs \<and>
         CBC_decrypt D prev (blocks16 (CBC_encrypt E prev bs)) = concat bs"
proof (induction bs arbitrary: prev)
  case Nil
  show ?case by (simp add: blocks16_Nil)
next
  case (Cons b bs)
  let ?c = "E (xorBlock b prev)"
  have lx: "length (xorBlock b prev) = 16"
    using Cons.prems by (simp add: length_xorBlock)
  have lc: "length ?c = 16" and dc: "D ?c = xorBlock b prev"
    using inv [OF lx] by simp_all
  have ih: "length (CBC_encrypt E ?c bs) = 16 * length bs \<and>
            CBC_decrypt D ?c (blocks16 (CBC_encrypt E ?c bs)) = concat bs"
    using Cons.IH [OF lc] Cons.prems by simp
  have "xorBlock (xorBlock b prev) prev = b"
    using Cons.prems by (simp add: xorBlock_cancel)
  then show ?case
    using ih lc dc by (simp add: Let_def blocks16_append)
qed

lemma length_Pkcs7_pad: "length (Pkcs7_pad d) mod 16 = 0"
proof -
  have "(length d + (16 - length d mod 16)) mod 16 = 0"
    by presburger
  then show ?thesis by (simp add: Pkcs7_pad_def Let_def)
qed

lemma Pkcs7_unpad_pad: "Pkcs7_unpad (Pkcs7_pad d) = d"
proof -
  let ?n = "16 - length d mod 16"
  have n: "0 < ?n" "?n \<le> 16" by simp_all
  have "unat (of_nat ?n :: byte) = ?n"
    using n by (simp only: unat_of_nat) simp
  then show ?thesis
    using n by (simp add: Pkcs7_unpad_def Pkcs7_pad_def Let_def)
qed

subsection \<open>UTF-8\<close>

lemma bytes_str_str_bytes: "bytes_str (str_bytes s) = s"
proof -
  have "char_of (unat (of_nat (of_char c) :: byte)) = c" for c
    by (simp add: unat_of_nat)
  then show ?thesis
    by (simp add: bytes_str_def str_bytes_def map_idI)
qed

lemma hexDigit_ascii:
  assumes "isHexDigit c"
  shows "(of_nat (of_char c) :: byte) < 0x80"
proof -
  have "(of_char c :: nat) \<le> 102"
    using assms by (auto simp: isHexDigit_def hexVal_def Let_def split: if_splits)
  then have "unat (of_nat (of_char c) :: byte) < 128"
    by (simp add: unat_of_nat)
  then show ?thesis
    by (simp add: word_less_nat_alt)
qed

lemma utf8_wellformed_ascii:
  "\<forall>b\<in>set bs. b < 0x80 \<Longrightarrow> utf8_wellformed bs"
  by (induction bs) simp_all

lemma utf8_wellformed_hex:
  "list_all isHexDigit s \<Longrightarrow> utf8_wellformed (str_bytes s)"
  by (rule utf8_wellformed_ascii) (auto simp: str_bytes_def list_all_iff hexDigit_ascii)

subsection \<open>The blob\<close>

lemma slices_of_blob:
  assumes "length a = 32" "length b = 32"
  shows "slice_str 0 32 (a @ b @ c) = a" "slice_str 32 64 (a @ b @ c) = b"
    "slice_from 64 (a @ b @ c) = c"
  using assms by (simp_all add: slice_str_def slice_from_def)

lemma getRandomBytesAsync_append:
  "length a = n \<Longrightarrow> getRandomBytesAsync n (a @ r) = Some (a, r)"
  by (simp add: getRandomBytesAsync_def)

lemma encryptPrivateKey_blob:
  assumes "length saltBytes = 16" "length ivBytes = 16"
  shows "encryptPrivateKey lib privKey pinCode (saltBytes @ ivBytes @ rest) =
           (Some (hexEncode saltBytes @ hexEncode ivBytes @
                  Base64_stringify
                    (AES_encrypt lib privKey
                       (PBKDF2 lib (padStart 6 CHR ''0'' pinCode) saltBytes 8 1000) ivBytes)),
            rest)"
  using assms
  by (simp add: encryptPrivateKey_def getRandomBytesAsync_append
        wordArrayBytes_uint8ArrayToWordArray bytesToHex_hexEncode)

lemma decryptPrivateKey_blob:
  assumes "length saltBytes = 16" "length ivBytes = 16" "length ct mod 16 = 0"
  shows "decryptPrivateKey lib (hexEncode saltBytes @ hexEncode ivBytes @ Base64_stringify ct) pinCode =
           (let decrypted = AES_decrypt lib ct
                  (PBKDF2 lib (padStart 6 CHR ''0'' pinCode) saltBytes 8 1000) ivBytes
            in if utf8_wellformed decrypted then Returned (bytes_str decrypted) else Caught)"
proof -
  have l: "length (hexEncode saltBytes) = 32" "length (hexEncode ivBytes) = 32"
    using assms by (simp_all add: length_hexEncode)
  show ?thesis
    unfolding decryptPrivateKey_def slices_of_blob [OF l]
    using assms by (simp add: Hex_parse_hexEncode Base64_parse_stringify)
qed

lemma AES_roundtrip:
  assumes cipher: "\<And>block. length block = 16 \<Longrightarrow>
             length (AES_encryptBlock lib key block) = 16 \<and>
             AES_decryptBlock lib key (AES_encryptBlock lib key block) = block"
    and iv: "length iv = 16"
  shows "length (AES_encrypt lib message key iv) mod 16 = 0"
    and "AES_decrypt lib (AES_encrypt lib message key iv) key iv = str_bytes message"
proof -
  let ?bs = "blocks16 (Pkcs7_pad (str_bytes message))"
  have whole: "\<forall>b\<in>set ?bs. length b = 16"
    by (rule length_blocks16) (rule length_Pkcs7_pad)
  have rt: "length (CBC_encrypt (AES_encryptBlock lib key) iv ?bs) = 16 * length ?bs \<and>
            CBC_decrypt (AES_decryptBlock lib key) iv
              (blocks16 (CBC_encrypt (AES_encryptBlock lib key) iv ?bs)) = concat ?bs"
    using cipher iv whole by (rule CBC_roundtrip)
  show "length (AES_encrypt lib message key iv) mod 16 = 0"
    using rt by (simp add: AES_encrypt_def)
  show "AES_decrypt lib (AES_encrypt lib message key iv) key iv = str_bytes message"
    using rt by (simp add: AES_encrypt_def AES_decrypt_def concat_blocks16 Pkcs7_unpad_pad)
qed

lemma isHexDigit_hexEncode: "list_all isHexDigit (hexEncode bs)"
proof -
  have "isHexDigit (hexDigit (unat b div 16)) \<and> isHexDigit (hexDigit (unat b mod 16))" for b :: byte
    using unat_byte_less [of b] by (simp add: isHexDigit_def hexVal_hexDigit)
  then show ?thesis
    by (induction bs) (simp_all add: hexEncode_def)
qed

lemma testLib_cipher:
  "\<forall>key block. length block = 16 \<longrightarrow>
     length (AES_encryptBlock testLib key block) = 16 \<and>
     AES_decryptBlock testLib key (AES_encryptBlock testLib key block) = block"
  by (simp add: testLib_def fit_def length_xorBlock xorBlock_cancel)

section \<open>Properties of the vault\<close>

lemma encrypt_then_decrypt:
  assumes cipher: "\<forall>key block. length block = 16 \<longrightarrow>
             length (AES_encryptBlock lib key block) = 16 \<and>
             AES_decryptBlock lib key (AES_encryptBlock lib key block) = block"
    and key: "isPrivateKeyHex privKey"
    and pin: "isSixDigits pin"
    and src: "32 \<le> length source"
  shows "\<exists>blob. encryptPrivateKey lib privKey pin source = (Some blob, drop 32 source) \<and>
                decryptPrivateKey lib blob pin = Returned privKey"
proof -
  let ?salt = "take 16 source"
  let ?iv = "take 16 (drop 16 source)"
  let ?k = "PBKDF2 lib (padStart 6 CHR ''0'' pin) ?salt 8 1000"
  let ?ct = "AES_encrypt lib privKey ?k ?iv"
  let ?blob = "hexEncode ?salt @ hexEncode ?iv @ Base64_stringify ?ct"
  have ls: "length ?salt = 16" and li: "length ?iv = 16"
    using src by simp_all
  have split: "source = ?salt @ ?iv @ drop 32 source"
    by (metis add.commute append_take_drop_id drop_drop numeral_Bit0)
  have enc: "encryptPrivateKey lib privKey pin source = (Some ?blob, drop 32 source)"
    using encryptPrivateKey_blob [OF ls li, of lib privKey pin "drop 32 source"] split by simp
  have c: "\<And>block. length block = 16 \<Longrightarrow>
             length (AES_encryptBlock lib ?k block) = 16 \<and>
             AES_decryptBlock lib ?k (AES_encryptBlock lib ?k block) = block"
    using cipher by simp
  have wf: "utf8_wellformed (str_bytes privKey)"
    using key by (simp add: isPrivateKeyHex_def utf8_wellformed_hex)
  have whole: "length ?ct mod 16 = 0"
    using c li by (rule AES_roundtrip(1))
  have undo: "AES_decrypt lib ?ct ?k ?iv = str_bytes privKey"
    using c li by (rule AES_roundtrip(2))
  have dec: "decryptPrivateKey lib ?blob pin = Returned privKey"
    using decryptPrivateKey_blob [OF ls li whole, where lib = lib and pinCode = pin] undo wf
    by (simp add: bytes_str_str_bytes)
  show ?thesis
    using enc dec by blast
qed

text \<open>
  C1: whenever the block cipher's decryption inverts its encryption on 16-byte blocks (as
  AES does), the private key is 64 hex characters, the PIN is six digits and the random
  source yields the 32 bytes of salt and IV, \<open>encryptPrivateKey\<close> returns a blob, and
  \<open>decryptPrivateKey\<close> on that blob with the same PIN returns the private key string.
\<close>

theorem vault_roundtrip:
  assumes cipher: "\<forall>key block. length block = 16 \<longrightarrow>
             length (AES_encryptBlock lib key block) = 16 \<and>
             AES_decryptBlock lib key (AES_encryptBlock lib key block) = block"
    and key: "isPrivateKeyHex privKey"
    and pin: "isSixDigits pin"
    and src: "32 \<le> length source"
  shows "\<exists>blob. encryptPrivateKey lib privKey pin source = (Some blob, drop 32 source) \<and>
                decryptPrivateKey lib blob pin = Returned privKey"
  using assms by (rule encrypt_then_decrypt)

theorem vault_roundtrip_witness:
  "isPrivateKeyHex ''0000000000000000000000000000000000000000000000000000000000000001'' \<and>
   isSixDigits ''123456'' \<and>
   (\<exists>blob. encryptPrivateKey testLib
              ''0000000000000000000000000000000000000000000000000000000000000001'' ''123456''
              (replicate 16 0xA5 @ replicate 16 0x3C) = (Some blob, []) \<and>
           decryptPrivateKey testLib blob ''123456'' =
             Returned ''0000000000000000000000000000000000000000000000000000000000000001'')"
proof -
  have k: "isPrivateKeyHex ''0000000000000000000000000000000000000000000000000000000000000001''"
    by (simp add: isPrivateKeyHex_def isHexDigit_def hexVal_def)
  have p: "isSixDigits ''123456''"
    by (simp add: isSixDigits_def isDigit_def)
  have s: "32 \<le> length (replicate 16 (0xA5 :: byte) @ replicate 16 0x3C)"
    by simp
  show ?thesis
    using vault_roundtrip [OF testLib_cipher k p s] k p by simp
qed

text \<open>
  C7: with a random source that yields the 16 bytes \<open>saltBytes\<close> and then the 16 bytes
  \<open>ivBytes\<close>, the blob is the 32 hex characters of the salt, the 32 hex characters of the
  IV and the Base64 of the ciphertext, in that order; the three slices that
  \<open>decryptPrivateKey\<close> takes, characters 0 to 32, 32 to 64 and 64 to the end, parse back to
  that salt, that IV and that ciphertext, and these are what it decrypts with (for a
  ciphertext of whole blocks, under any PIN).
\<close>

theorem blob_wire_format:
  assumes "length saltBytes = 16" and "length ivBytes = 16"
  shows "(let ciphertext = AES_encrypt lib privKey
                             (PBKDF2 lib (padStart 6 CHR ''0'' pinCode) saltBytes 8 1000) ivBytes;
              blob = bytesToHex saltBytes @ bytesToHex ivBytes @ Base64_stringify ciphertext
          in encryptPrivateKey lib privKey pinCode (saltBytes @ ivBytes @ rest) = (Some blob, rest) \<and>
             length (bytesToHex saltBytes) = 32 \<and> length (bytesToHex ivBytes) = 32 \<and>
             list_all isHexDigit (bytesToHex saltBytes @ bytesToHex ivBytes) \<and>
             Hex_parse (slice_str 0 32 blob) = Some saltBytes \<and>
             Hex_parse (slice_str 32 64 blob) = Some ivBytes \<and>
             Base64_parse (slice_from 64 blob) = ciphertext \<and>
             (length ciphertext mod 16 = 0 \<longrightarrow>
                (\<forall>otherPin.
                   decryptPrivateKey lib blob otherPin =
                     (let decrypted = AES_decrypt lib ciphertext
                            (PBKDF2 lib (padStart 6 CHR ''0'' otherPin) saltBytes 8 1000) ivBytes
                      in if utf8_wellformed decrypted then Returned (bytes_str decrypted)
                         else Caught))))"
proof -
  have l: "length (hexEncode saltBytes) = 32" "length (hexEncode ivBytes) = 32"
    using assms by (simp_all add: length_hexEncode)
  show ?thesis
    unfolding Let_def bytesToHex_hexEncode slices_of_blob [OF l]
    using l encryptPrivateKey_blob [OF assms, of lib privKey pinCode rest]
      decryptPrivateKey_blob [OF assms, where lib = lib]
    by (simp add: Hex_parse_hexEncode Base64_parse_stringify isHexDigit_hexEncode Let_def)
qed

theorem blob_wire_format_witness:
  "(let saltBytes = replicate 16 0xA5; ivBytes = replicate 16 0x3C;
        privKey = ''0000000000000000000000000000000000000000000000000000000000000001'';
        ciphertext = AES_encrypt testLib privKey
                       (PBKDF2 testLib (padStart 6 CHR ''0'' ''123456'') saltBytes 8 1000) ivBytes;
        blob = bytesToHex saltBytes @ bytesToHex ivBytes @ Base64_stringify ciphertext
    in length saltBytes = 16 \<and> length ivBytes = 16 \<and>
       encryptPrivateKey testLib privKey ''123456'' (saltBytes @ ivBytes @ []) = (Some blob, []) \<and>
       Hex_parse (slice_str 0 32 blob) = Some saltBytes \<and>
       Hex_parse (slice_str 32 64 blob) = Some ivBytes \<and>
       Base64_parse (slice_from 64 blob) = ciphertext \<and>
       length ciphertext mod 16 = 0 \<and>
       decryptPrivateKey testLib blob ''654321'' =
         (let decrypted = AES_decrypt testLib ciphertext
                (PBKDF2 testLib (padStart 6 CHR ''0'' ''654321'') saltBytes 8 1000) ivBytes
          in if utf8_wellformed decrypted then Returned (bytes_str decrypted) else Caught))"
proof -
  let ?salt = "replicate 16 (0xA5 :: byte)"
  let ?iv = "replicate 16 (0x3C :: byte)"
  let ?key = "PBKDF2 testLib (padStart 6 CHR ''0'' ''123456'') ?salt 8 1000"
  have ls: "length ?salt = 16" and li: "length ?iv = 16"
    by simp_all
  have c: "\<And>block. length block = 16 \<Longrightarrow>
             length (AES_encryptBlock testLib ?key block) = 16 \<and>
             AES_decryptBlock testLib ?key (AES_encryptBlock testLib ?key block) = block"
    using testLib_cipher by simp
  have whole: "length (AES_encrypt testLib
                 ''0000000000000000000000000000000000000000000000000000000000000001'' ?key ?iv)
               mod 16 = 0"
    using c li by (rule AES_roundtrip(1))
  show ?thesis
    using blob_wire_format [OF ls li, of testLib
        "''0000000000000000000000000000000000000000000000000000000000000001''" "''123456''" "[]"]
      whole
    unfolding Let_def by simp
qed

section \<open>Properties of registration\<close>

lemma getPublicKey_key1:
  "getPublicKey testLib ''0000000000000000000000000000000000000000000000000000000000000001'' = Some ''0479be667ef9dcbbac55a06295ce870b07029bfcdb2dce28d959f2815b16f81798483ada7726a3c4655da4fbfc0e1108a8fd17b448a68554199c47d08ffb10d4b8''"
  by code_simp

lemma getPublicKey_key2:
  "getPublicKey testLib ''0000000000000000000000000000000000000000000000000000000000000002'' = Some ''0400000000000000000000000000000000000000000000000000000000000000020000000000000000000000000000000000000000000000000000000000000002''"
  by code_simp

lemma validateInputs_sample:
  "validateInputs (\<lambda>u. True) ''0000000000000000000000000000000000000000000000000000000000000001'' ''desk'' ''https://r.example'' ''123456'' = None"
  "validateInputs (\<lambda>u. True) ''0000000000000000000000000000000000000000000000000000000000000002'' ''laptop'' ''https://r.example'' ''123456'' = None"
  by code_simp+

lemma encryptPrivateKey_enough:
  assumes "32 \<le> length source"
  shows "\<exists>enc. enc \<noteq> [] \<and> encryptPrivateKey lib privKey pinCode source = (Some enc, drop 32 source)"
proof -
  let ?salt = "take 16 source"
  let ?iv = "take 16 (drop 16 source)"
  have ls: "length ?salt = 16" and li: "length ?iv = 16"
    using assms by simp_all
  have split: "source = ?salt @ ?iv @ drop 32 source"
    by (metis add.commute append_take_drop_id drop_drop numeral_Bit0)
  have "hexEncode ?salt \<noteq> []"
    using ls length_hexEncode [of ?salt] by auto
  then show ?thesis
    using encryptPrivateKey_blob [OF ls li, of lib privKey pinCode "drop 32 source"] split by simp
qed

lemma saveDevice_adds:
  assumes "validateInputs validURL privateKey nameInput urlInput pin = None"
    and "getPublicKey lib privateKey = Some pk" and "pk \<noteq> []"
    and "\<not> list_ex (\<lambda>d. deviceName d = nameInput) (loadExistingDevices f)"
    and "\<not> list_ex (\<lambda>d. pubkey d = pk) (loadExistingDevices f)"
    and "32 \<le> length source"
  shows "\<exists>enc. saveDevice lib validURL privateKey nameInput urlInput pin source f =
           (Alert ''Success'' ''Device added successfully'',
            Stored (loadExistingDevices f @
                    [\<lparr>pubkey = pk, deviceName = nameInput, relayUrl = urlInput,
                      encryptedPrivKey = enc\<rparr>]),
            drop 32 source)"
proof -
  obtain enc where "enc \<noteq> []"
    and "encryptPrivateKey lib privateKey pin source = (Some enc, drop 32 source)"
    using encryptPrivateKey_enough [OF assms(6)] by blast
  then show ?thesis
    using assms(1-5) by (simp add: saveDevice_def Let_def)
qed

text \<open>
  C6: when the form passes validation and a non-empty public key is derived, so that there is a
  candidate device, and a record of the loaded collection has the candidate's name or its
  public key, \<open>saveDevice\<close> ends in the duplicate alert (the one for the name when a name
  matches, else the one for the public key) and the file is the one that was there: nothing
  is appended and nothing is written.
\<close>
theorem saveDevice_duplicate_rejected:
  assumes "validateInputs validURL privateKey nameInput urlInput pin = None"
    and "getPublicKey lib privateKey = Some pk" and "pk \<noteq> []"
    and "\<exists>d\<in>set (loadExistingDevices f). deviceName d = nameInput \<or> pubkey d = pk"
  shows "\<exists>source'.
           saveDevice lib validURL privateKey nameInput urlInput pin source f =
             (Alert ''Error''
                (if \<exists>d\<in>set (loadExistingDevices f). deviceName d = nameInput
                 then ''A device with this name already exists''
                 else ''A device with this public key already exists''),
              f, source')"
proof (cases "encryptPrivateKey lib privateKey pin source")
  case (Pair encrypted source')
  show ?thesis
    using assms Pair by (auto simp: saveDevice_def Let_def list_ex_iff)
qed

theorem saveDevice_duplicate_rejected_witness:
  "\<exists>source'.
     saveDevice testLib (\<lambda>u. True) ''0000000000000000000000000000000000000000000000000000000000000001'' ''desk'' ''https://r.example'' ''123456''
       (replicate 32 7)
       (Stored [\<lparr>pubkey = ''04aa'', deviceName = ''desk'', relayUrl = ''https://o.example'',
                  encryptedPrivKey = ''k1''\<rparr>]) =
     (Alert ''Error'' ''A device with this name already exists'',
      Stored [\<lparr>pubkey = ''04aa'', deviceName = ''desk'', relayUrl = ''https://o.example'',
                 encryptedPrivKey = ''k1''\<rparr>],
      source')"
  using saveDevice_duplicate_rejected [OF validateInputs_sample(1) getPublicKey_key1 _,
      of "Stored [\<lparr>pubkey = ''04aa'', deviceName = ''desk'', relayUrl = ''https://o.example'',
                      encryptedPrivKey = ''k1''\<rparr>]" "replicate 32 7"]
  by (simp add: loadExistingDevices_def)

lemma saveDevice_file:
  assumes "saveDevice lib validURL privateKey nameInput urlInput pin source f = (a, f', source')"
  shows "f' = f \<or>
         (\<exists>pk enc. f' = Stored (loadExistingDevices f @
                         [\<lparr>pubkey = pk, deviceName = nameInput, relayUrl = urlInput,
                           encryptedPrivKey = enc\<rparr>]) \<and>
                   pk \<notin> set (map pubkey (loadExistingDevices f)) \<and>
                   nameInput \<notin> set (map deviceName (loadExistingDevices f)))"
  using assms
  by (auto simp: saveDevice_def Let_def list_ex_iff split: option.splits prod.splits if_splits)

lemma saveDevice_keeps_distinct:
  assumes "saveDevice lib validURL privateKey nameInput urlInput pin source f = (a, f', source')"
    and "distinct (map pubkey (loadExistingDevices f))"
    and "distinct (map deviceName (loadExistingDevices f))"
  shows "distinct (map pubkey (loadExistingDevices f')) \<and>
         distinct (map deviceName (loadExistingDevices f'))"
  using saveDevice_file [OF assms(1)] assms(2,3)
  by (auto simp: loadExistingDevices_def)

lemma deleteDevice_keeps_distinct:
  assumes "deleteDevice pk f = (a, f')"
    and "distinct (map pubkey (loadExistingDevices f))"
    and "distinct (map deviceName (loadExistingDevices f))"
  shows "distinct (map pubkey (loadExistingDevices f')) \<and>
         distinct (map deviceName (loadExistingDevices f'))"
  using assms
  by (auto simp: deleteDevice_def loadExistingDevices_def Let_def distinct_map_filter
        split: devices_file.splits)

lemma saveChanges_keeps_pubkeys:
  assumes "saveChanges validURL pk nameInput urlInput f = (a, f')"
  shows "map pubkey (loadExistingDevices f') = map pubkey (loadExistingDevices f)"
  using assms
  by (auto simp: saveChanges_def loadExistingDevices_def Let_def
        split: option.splits devices_file.splits)

text \<open>
  C4 fails on the code: \<open>saveChanges\<close> never looks at the other records' names. Starting
  with no file, two devices are added and the second is renamed to the name of the first;
  every step reports success, the public keys stay distinct, and the registry ends with
  two records named \<open>desk\<close>. The lemmas above show that adding and deleting keep both
  fields distinct and that editing keeps the public keys; only the name is at fault.
\<close>
theorem rename_breaks_name_uniqueness:
  "(case saveDevice testLib (\<lambda>u. True) ''0000000000000000000000000000000000000000000000000000000000000001'' ''desk'' ''https://r.example'' ''123456''
           (replicate 64 7) Missing of
      (a1, f1, source1) \<Rightarrow>
        (case saveDevice testLib (\<lambda>u. True) ''0000000000000000000000000000000000000000000000000000000000000002'' ''laptop'' ''https://r.example'' ''123456''
                source1 f1 of
           (a2, f2, source2) \<Rightarrow>
             (case saveChanges (\<lambda>u. True) ''0400000000000000000000000000000000000000000000000000000000000000020000000000000000000000000000000000000000000000000000000000000002'' ''desk'' ''https://r.example'' f2 of
                (a3, f3) \<Rightarrow>
                  a1 = Alert ''Success'' ''Device added successfully'' \<and>
                  a2 = Alert ''Success'' ''Device added successfully'' \<and>
                  a3 = Alert ''Success'' ''Device updated successfully'' \<and>
                  map pubkey (loadExistingDevices f3) = [''0479be667ef9dcbbac55a06295ce870b07029bfcdb2dce28d959f2815b16f81798483ada7726a3c4655da4fbfc0e1108a8fd17b448a68554199c47d08ffb10d4b8'', ''0400000000000000000000000000000000000000000000000000000000000000020000000000000000000000000000000000000000000000000000000000000002''] \<and>
                  map deviceName (loadExistingDevices f2) = [''desk'', ''laptop''] \<and>
                  map deviceName (loadExistingDevices f3) = [''desk'', ''desk''])))"
proof -
  obtain enc1 where s1:
    "saveDevice testLib (\<lambda>u. True) ''0000000000000000000000000000000000000000000000000000000000000001'' ''desk'' ''https://r.example'' ''123456''
       (replicate 64 7) Missing =
     (Alert ''Success'' ''Device added successfully'',
      Stored [\<lparr>pubkey = ''0479be667ef9dcbbac55a06295ce870b07029bfcdb2dce28d959f2815b16f81798483ada7726a3c4655da4fbfc0e1108a8fd17b448a68554199c47d08ffb10d4b8'', deviceName = ''desk'', relayUrl = ''https://r.example'',
                 encryptedPrivKey = enc1\<rparr>],
      replicate 32 7)"
    using saveDevice_adds [OF validateInputs_sample(1) getPublicKey_key1 _, of Missing "replicate 64 7"]
    by (auto simp: loadExistingDevices_def)
  let ?f1 = "Stored [\<lparr>pubkey = ''0479be667ef9dcbbac55a06295ce870b07029bfcdb2dce28d959f2815b16f81798483ada7726a3c4655da4fbfc0e1108a8fd17b448a68554199c47d08ffb10d4b8'', deviceName = ''desk'', relayUrl = ''https://r.example'',
                 encryptedPrivKey = enc1\<rparr>]"
  obtain enc2 where s2:
    "saveDevice testLib (\<lambda>u. True) ''0000000000000000000000000000000000000000000000000000000000000002'' ''laptop'' ''https://r.example'' ''123456''
       (replicate 32 7) ?f1 =
     (Alert ''Success'' ''Device added successfully'',
      Stored [\<lparr>pubkey = ''0479be667ef9dcbbac55a06295ce870b07029bfcdb2dce28d959f2815b16f81798483ada7726a3c4655da4fbfc0e1108a8fd17b448a68554199c47d08ffb10d4b8'', deviceName = ''desk'', relayUrl = ''https://r.example'',
                 encryptedPrivKey = enc1\<rparr>,
              \<lparr>pubkey = ''0400000000000000000000000000000000000000000000000000000000000000020000000000000000000000000000000000000000000000000000000000000002'', deviceName = ''laptop'', relayUrl = ''https://r.example'',
                 encryptedPrivKey = enc2\<rparr>],
      [])"
    using saveDevice_adds [OF validateInputs_sample(2) getPublicKey_key2 _, of ?f1 "replicate 32 7"]
    by (auto simp: loadExistingDevices_def)
  have v: "validateInputs_edit (\<lambda>u. True) ''desk'' ''https://r.example'' = None"
    by (rule validateInputs_edit_sample)
  show ?thesis
    unfolding s1 s2 prod.case
    using v by (simp add: saveChanges_def loadExistingDevices_def)
qed

section \<open>Properties of signing\<close>

lemma signCommand_Some:
  assumes "signCommand lib cmd privateKeyHex = Some r"
  shows "\<exists>signature publicKey.
           secp_sign lib (hmacSha256Sync lib)
             (bufferFromHex (hexEncode (SHA256 lib (str_bytes cmd)))) (bufferFromHex privateKeyHex) =
             Some signature \<and>
           secp_getPublicKey lib (bufferFromHex privateKeyHex) True = Some publicKey \<and>
           r = \<lparr>publicKeyHex = ''04'' @ hexEncode publicKey, signatureHex = hexEncode signature,
                 command = cmd\<rparr>"
  using assms by (auto simp: signCommand_def Let_def split: option.splits)

lemma signCommand_sample:
  "signCommand testLib ''shutdown+20240101000000'' ''0000000000000000000000000000000000000000000000000000000000000001'' =
     Some \<lparr>publicKeyHex = ''040279be667ef9dcbbac55a06295ce870b07029bfcdb2dce28d959f2815b16f81798'',
           signatureHex = ''73687574646f776e2b32303234303130313030303030300000000000000000000000000000000000000000000000000000000000000000000000000000000001'',
           command = ''shutdown+20240101000000''\<rparr>"
  by code_simp

lemma whiteSpace_leads:
  assumes "whiteSpaceLength (c # r) \<noteq> 0"
  shows "isWhiteSpace c \<or> c \<in> set [CHR 0xC2, CHR 0xE1, CHR 0xE2, CHR 0xE3, CHR 0xEF]"
proof -
  have two: "c = CHR 0xC2" if "take 2 (c # r) \<in> set whiteSpace2"
    using that by (simp add: whiteSpace2_def take_Cons')
  have three: "c \<in> set [CHR 0xE1, CHR 0xE2, CHR 0xE3, CHR 0xEF]" if "take 3 (c # r) \<in> set whiteSpace3"
  proof -
    have "hd (take 3 (c # r)) \<in> hd ` set whiteSpace3"
      using that by (rule imageI)
    moreover have "hd (take 3 (c # r)) = c"
      by (simp add: take_Cons')
    moreover have "hd ` set whiteSpace3 = set [CHR 0xE1, CHR 0xE2, CHR 0xE3, CHR 0xEF]"
      by (simp add: whiteSpace3_def)
    ultimately show ?thesis by simp
  qed
  show ?thesis
    using assms two three
    by (auto simp: whiteSpaceLength_def split: if_splits)
qed

lemma hexDigit_code: "isHexDigit c \<Longrightarrow> 48 \<le> (of_char c :: nat) \<and> (of_char c :: nat) \<le> 102"
  by (auto simp: isHexDigit_def hexVal_def Let_def split: if_splits)

lemma hexDigit_char_facts:
  assumes "isHexDigit c"
  shows "whiteSpaceLength (c # r) = 0" "c \<noteq> CHR ''-''" "c \<noteq> CHR ''+''" "c \<noteq> CHR ''x''"
    "c \<noteq> CHR ''X''" "\<not> isLineTerminator c"
proof -
  note code = hexDigit_code [OF assms]
  have "\<not> isWhiteSpace c"
    using code by (auto simp: isWhiteSpace_def)
  moreover have "c \<notin> set [CHR 0xC2, CHR 0xE1, CHR 0xE2, CHR 0xE3, CHR 0xEF]"
    using code by auto
  ultimately show "whiteSpaceLength (c # r) = 0"
    using whiteSpace_leads [of c r] by blast
  show "c \<noteq> CHR ''-''" "c \<noteq> CHR ''+''" "\<not> isLineTerminator c"
    using code by (auto simp: isLineTerminator_def)
  show "c \<noteq> CHR ''x''" "c \<noteq> CHR ''X''"
    using assms by (auto simp: isHexDigit_def hexVal_def Let_def)
qed

lemma parseInt16_pair:
  assumes "isHexDigit c1" and "isHexDigit c2"
  shows "parseInt16 [c1, c2] = Some (int (16 * the (hexVal c1) + the (hexVal c2)))"
proof -
  have "trimStart [c1, c2] = [c1, c2]"
    using hexDigit_char_facts(1) [OF assms(1)] by (simp add: trimStart.simps)
  then show ?thesis
    using assms hexDigit_char_facts(2-5) [OF assms(1)] hexDigit_char_facts(2-5) [OF assms(2)]
    by (simp add: parseInt16_def Let_def)
qed

lemma bufferFromHex_Hex_parse:
  "list_all isHexDigit s \<Longrightarrow> even (length s) \<Longrightarrow> Hex_parse s = Some (bufferFromHex s)"
proof (induction s rule: Hex_parse.induct)
  case 1
  show ?case by simp
next
  case (2 c)
  then show ?case by simp
next
  case (3 c1 c2 r)
  then have h: "isHexDigit c1" "isHexDigit c2" and r: "Hex_parse r = Some (bufferFromHex r)"
    by simp_all
  obtain v1 v2 where v: "hexVal c1 = Some v1" "hexVal c2 = Some v2"
    using h by (auto simp: isHexDigit_def)
  show ?case
    using v r parseInt16_pair [OF h] by simp
qed

lemma bufferFromHex_hexEncode: "bufferFromHex (hexEncode bs) = bs"
proof -
  have "Hex_parse (hexEncode bs) = Some (bufferFromHex (hexEncode bs))"
    by (rule bufferFromHex_Hex_parse) (simp_all add: isHexDigit_hexEncode length_hexEncode)
  then show ?thesis
    by (simp add: Hex_parse_hexEncode)
qed

text \<open>
  The installed HMAC function authenticates the key followed by the messages, under the
  key.
\<close>

lemma hmacSha256Sync_eq:
  "hmacSha256Sync lib key messages = HmacSHA256 lib (key @ concat messages) key"
proof -
  have "foldl (\<lambda>hash message. hash @ message) key messages = key @ concat messages"
    by (induction messages arbitrary: key) simp_all
  then show ?thesis
    by (simp add: hmacSha256Sync_def bufferFromHex_hexEncode)
qed

lemma matchPairs_hex:
  "list_all isHexDigit s \<Longrightarrow> even (length s) \<Longrightarrow>
   map (\<lambda>byte. case parseInt16 byte of None \<Rightarrow> 0 | Some v \<Rightarrow> word_of_int v) (matchPairs s) =
   bufferFromHex s"
proof (induction s rule: matchPairs.induct)
  case 1
  show ?case by simp
next
  case (2 a)
  then show ?case by simp
next
  case (3 a b r)
  then have h: "isHexDigit a" "isHexDigit b" and rest: "list_all isHexDigit r" "even (length r)"
    by simp_all
  show ?case
    using "3.IH"(3) rest hexDigit_char_facts(6) [OF h(1)] hexDigit_char_facts(6) [OF h(2)]
      parseInt16_pair [OF h]
    by simp
qed

text \<open>
  Registration and signing decode a valid private key to the same bytes; registration
  returns the hex of the uncompressed encoding, signing \<open>04\<close> and the hex of the compressed
  one.
\<close>

lemma same_private_key_bytes:
  assumes "isPrivateKeyHex privKey"
  shows "getPublicKey lib privKey =
           map_option bytesToHex (secp_getPublicKey lib (bufferFromHex privKey) False)"
  using assms matchPairs_hex [of privKey]
  by (simp add: getPublicKey_def isPrivateKeyHex_def bytesToHex_def split: option.splits)

lemma signCommand_publicKeyHex:
  assumes "signCommand lib cmd privateKeyHex = Some r"
  shows "\<exists>publicKey.
           secp_getPublicKey lib (bufferFromHex privateKeyHex) True = Some publicKey \<and>
           publicKeyHex r = ''04'' @ hexEncode publicKey \<and>
           length (publicKeyHex r) = 2 + 2 * length publicKey"
  using signCommand_Some [OF assms] by (auto simp: length_hexEncode)

text \<open>
  C3 fails on the code: \<open>signCommand\<close> asks the library for the public key in its default,
  compressed form and puts \<open>04\<close> in front of it. For the private key 1 the field is \<open>04\<close>,
  \<open>02\<close> and the 64 hex characters of X, 68 characters in all, while registration derives
  and stores the 130 characters \<open>04\<close>, X, Y.
\<close>

theorem signCommand_publicKeyHex_is_compressed_with_04:
  "signCommand testLib ''shutdown+20240101000000'' ''0000000000000000000000000000000000000000000000000000000000000001'' =
     Some \<lparr>publicKeyHex = ''040279be667ef9dcbbac55a06295ce870b07029bfcdb2dce28d959f2815b16f81798'',
           signatureHex = ''73687574646f776e2b32303234303130313030303030300000000000000000000000000000000000000000000000000000000000000000000000000000000001'',
           command = ''shutdown+20240101000000''\<rparr> \<and>
   length ''040279be667ef9dcbbac55a06295ce870b07029bfcdb2dce28d959f2815b16f81798'' = 68 \<and>
   getPublicKey testLib ''0000000000000000000000000000000000000000000000000000000000000001'' = Some ''0479be667ef9dcbbac55a06295ce870b07029bfcdb2dce28d959f2815b16f81798483ada7726a3c4655da4fbfc0e1108a8fd17b448a68554199c47d08ffb10d4b8'' \<and>
   length ''0479be667ef9dcbbac55a06295ce870b07029bfcdb2dce28d959f2815b16f81798483ada7726a3c4655da4fbfc0e1108a8fd17b448a68554199c47d08ffb10d4b8'' = 130"
  using signCommand_sample getPublicKey_key1 by simp

lemma handleSign_request:
  assumes "handleSign lib post isoNow dev action pin = Returned flow"
    and "request flow = Some req"
  shows "\<exists>device privKey r.
           dev = Some device \<and>
           decryptPrivateKey lib (encryptedPrivKey device) pin = Returned privKey \<and>
           signCommand lib (action @ ''+'' @ currentTime isoNow) privKey = Some r \<and>
           body_signature req = signatureHex r \<and>
           body_command req = action @ ''+'' @ currentTime isoNow \<and>
           body_pubkey req = pubkey device"
proof -
  have cmd: "command r = c" if "signCommand lib c k = Some r" for c k r
    using signCommand_Some [OF that] by auto
  show ?thesis
    using assms cmd
    by (auto simp: handleSign_def Let_def
          split: option.splits if_splits outcome.splits post_result.splits)
qed

lemma handleSign_sends:
  assumes "action \<noteq> []" and "isSixDigits pin" and "length (currentTime isoNow) = 14"
    and "decryptPrivateKey lib (encryptedPrivKey device) pin = Returned privKey"
    and "privKey \<noteq> []"
    and "signCommand lib (action @ ''+'' @ currentTime isoNow) privKey = Some r"
  shows "handleSign lib post isoNow (Some device) action pin =
           (let relay = (if relayUrl device \<noteq> [] \<and> last (relayUrl device) = CHR ''/''
                         then relayUrl device else relayUrl device @ ''/'');
                req = \<lparr>url = relay @ ''api/request/send-command'', body_pubkey = pubkey device,
                        body_signature = signatureHex r, body_command = command r\<rparr>
            in Returned \<lparr>alerts = (if post req = PostNotOk
                                      then [Alert ''Error'' ''Failed to sign and send command.'']
                                      else []),
                         request = Some req, showSuccessModal = (post req = PostOk)\<rparr>)"
  using assms
  by (simp add: handleSign_def Let_def isSixDigits_def split: post_result.splits)

lemma isSixDigits_samples: "isSixDigits ''123456''" "isSixDigits ''654321''"
  by (simp_all add: isSixDigits_def isDigit_def)

lemma isPrivateKeyHex_sample: "isPrivateKeyHex ''0000000000000000000000000000000000000000000000000000000000000001''"
  by (simp add: isPrivateKeyHex_def isHexDigit_def hexVal_def)

lemma sample_run:
  assumes pin: "isSixDigits pin" and src: "32 \<le> length source"
    and now: "currentTime isoNow = ''20240101000000''"
  shows "\<exists>blob.
           encryptPrivateKey testLib ''0000000000000000000000000000000000000000000000000000000000000001'' pin source = (Some blob, drop 32 source) \<and>
           decryptPrivateKey testLib blob pin = Returned ''0000000000000000000000000000000000000000000000000000000000000001'' \<and>
           (\<forall>post pk name relay.
              handleSign testLib post isoNow
                (Some \<lparr>pubkey = pk, deviceName = name, relayUrl = relay, encryptedPrivKey = blob\<rparr>)
                ''shutdown'' pin =
              (let req = \<lparr>url = (if relay \<noteq> [] \<and> last relay = CHR ''/'' then relay else relay @ ''/'') @
                              ''api/request/send-command'',
                        body_pubkey = pk, body_signature = ''73687574646f776e2b32303234303130313030303030300000000000000000000000000000000000000000000000000000000000000000000000000000000001'',
                        body_command = ''shutdown+20240101000000''\<rparr>
               in Returned \<lparr>alerts = (if post req = PostNotOk
                                         then [Alert ''Error'' ''Failed to sign and send command.'']
                                         else []),
                            request = Some req, showSuccessModal = (post req = PostOk)\<rparr>))"
proof -
  obtain blob where enc: "encryptPrivateKey testLib ''0000000000000000000000000000000000000000000000000000000000000001'' pin source = (Some blob, drop 32 source)"
    and dec: "decryptPrivateKey testLib blob pin = Returned ''0000000000000000000000000000000000000000000000000000000000000001''"
    using encrypt_then_decrypt [OF testLib_cipher isPrivateKeyHex_sample pin src] by blast
  have run: "handleSign testLib post isoNow
                (Some \<lparr>pubkey = pk, deviceName = name, relayUrl = relay, encryptedPrivKey = blob\<rparr>)
                ''shutdown'' pin =
              (let req = \<lparr>url = (if relay \<noteq> [] \<and> last relay = CHR ''/'' then relay else relay @ ''/'') @
                              ''api/request/send-command'',
                        body_pubkey = pk, body_signature = ''73687574646f776e2b32303234303130313030303030300000000000000000000000000000000000000000000000000000000000000000000000000000000001'',
                        body_command = ''shutdown+20240101000000''\<rparr>
               in Returned \<lparr>alerts = (if post req = PostNotOk
                                         then [Alert ''Error'' ''Failed to sign and send command.'']
                                         else []),
                            request = Some req, showSuccessModal = (post req = PostOk)\<rparr>)"
    for post pk name relay
    using handleSign_sends [where lib = testLib and post = post and isoNow = isoNow and pin = pin
        and action = "''shutdown''" and privKey = "''0000000000000000000000000000000000000000000000000000000000000001''"
        and device = "\<lparr>pubkey = pk, deviceName = name, relayUrl = relay, encryptedPrivKey = blob\<rparr>"
        and r = "\<lparr>publicKeyHex = ''040279be667ef9dcbbac55a06295ce870b07029bfcdb2dce28d959f2815b16f81798'', signatureHex = ''73687574646f776e2b32303234303130313030303030300000000000000000000000000000000000000000000000000000000000000000000000000000000001'',
                  command = ''shutdown+20240101000000''\<rparr>"]
      pin dec now signCommand_sample
    by (simp add: Let_def)
  show ?thesis
    using enc dec run by blast
qed


section \<open>Properties of the command string\<close>

lemma length_fixedDec: "length (fixedDec k n) = k"
  by (induction k arbitrary: n) simp_all

lemma isDigit_dec: "isDigit (char_of (48 + (n :: nat) mod 10))"
proof -
  have "n mod 10 < 10" by simp
  then have "(48 + n mod 10) mod 256 = 48 + n mod 10"
    by simp
  then show ?thesis
    by (simp add: isDigit_def)
qed

lemma isDigit_fixedDec: "list_all isDigit (fixedDec k n)"
  by (induction k arbitrary: n) (simp_all add: isDigit_dec)

lemma isDigit_not_separator: "isDigit c \<Longrightarrow> c \<notin> set ''-:.TZ''"
  by (auto simp: isDigit_def)

lemma filter_digits:
  "list_all isDigit s \<Longrightarrow> filter (\<lambda>c. c \<notin> set ''-:.TZ'') s = s"
  by (induction s) (simp_all add: isDigit_not_separator del: set_simps)

lemma decVal_snoc: "decVal (s @ [c]) = 10 * decVal s + (of_char c - 48)"
  by (simp add: decVal_def)

lemma decVal_fixedDec: "decVal (fixedDec k n) = n mod 10 ^ k"
proof (induction k arbitrary: n)
  case 0
  show ?case by (simp add: decVal_def)
next
  case (Suc k)
  have d: "(of_char (char_of (48 + n mod 10)) :: nat) - 48 = n mod 10"
    using isDigit_dec [of n] by (simp add: isDigit_def)
  have "n mod (10 * 10 ^ k) = 10 * (n div 10 mod 10 ^ k) + n mod 10"
    by (simp add: mod_mult2_eq)
  then show ?case
    using Suc [of "n div 10"] d by (simp add: decVal_snoc del: of_char_of)
qed

lemma currentTime_toISOString:
  assumes "0 \<le> year d" and "year d \<le> 9999"
  shows "currentTime (toISOString d) =
           fixedDec 4 (nat (year d)) @ fixedDec 2 (month d) @ fixedDec 2 (day d) @
           fixedDec 2 (hours d) @ fixedDec 2 (minutes d) @ fixedDec 2 (seconds d)"
proof -
  have "filter (\<lambda>c. c \<notin> set ''-:.TZ'') (toISOString d) =
          (fixedDec 4 (nat (year d)) @ fixedDec 2 (month d) @ fixedDec 2 (day d) @
           fixedDec 2 (hours d) @ fixedDec 2 (minutes d) @ fixedDec 2 (seconds d)) @
          fixedDec 3 (milliseconds d)"
  proof -
    have sep: "CHR ''-'' \<in> set ''-:.TZ''" "CHR '':'' \<in> set ''-:.TZ''" "CHR ''.'' \<in> set ''-:.TZ''"
        "CHR ''T'' \<in> set ''-:.TZ''" "CHR ''Z'' \<in> set ''-:.TZ''"
      by simp_all
    show ?thesis
      using assms
      by (simp add: toISOString_def filter_digits isDigit_fixedDec sep del: set_simps fixedDec.simps)
  qed
  then show ?thesis
    by (simp add: currentTime_def slice_str_def length_fixedDec del: fixedDec.simps)
qed

lemma handleSign_no_time:
  assumes "action \<noteq> []" and "isSixDigits pin" and "length (currentTime isoNow) \<noteq> 14"
  shows "handleSign lib post isoNow (Some device) action pin =
           Returned \<lparr>alerts = [Alert ''Error'' ''Failed to get current time.''],
                     request = None, showSuccessModal = False\<rparr>"
  using assms by (simp add: handleSign_def isSixDigits_def)

text \<open>
  C8: for a date with a year from 0 to 9999 and fields in range, and an action of the
  picker, the timestamp cut from the ISO string is 14 decimal digits, namely the four
  digits of the year and the two digits each of month, day, hours, minutes and seconds
  (UTC), which read back as those numbers; every request that \<open>handleSign\<close> sends at that
  time carries the command action, \<open>+\<close>, timestamp; and whatever string the clock
  gives, if what is cut from it does not have 14 characters, \<open>handleSign\<close> stops with the
  alert about the current time and sends nothing.
\<close>
theorem command_construction:
  assumes "0 \<le> year d" and "year d \<le> 9999" and "validDate d"
    and "action \<in> set pickerActions"
  shows "(let ts = currentTime (toISOString d)
          in length ts = 14 \<and> list_all isDigit ts \<and>
             ts = fixedDec 4 (nat (year d)) @ fixedDec 2 (month d) @ fixedDec 2 (day d) @
                  fixedDec 2 (hours d) @ fixedDec 2 (minutes d) @ fixedDec 2 (seconds d) \<and>
             [decVal (slice_str 0 4 ts), decVal (slice_str 4 6 ts), decVal (slice_str 6 8 ts),
              decVal (slice_str 8 10 ts), decVal (slice_str 10 12 ts), decVal (slice_str 12 14 ts)] =
             [nat (year d), month d, day d, hours d, minutes d, seconds d] \<and>
             (\<forall>lib post dev pin flow req.
                handleSign lib post (toISOString d) dev action pin = Returned flow \<longrightarrow>
                request flow = Some req \<longrightarrow>
                body_command req = action @ ''+'' @ ts) \<and>
             (\<forall>lib post isoNow device pin.
                isSixDigits pin \<longrightarrow> length (currentTime isoNow) \<noteq> 14 \<longrightarrow>
                handleSign lib post isoNow (Some device) action pin =
                  Returned \<lparr>alerts = [Alert ''Error'' ''Failed to get current time.''],
                            request = None, showSuccessModal = False\<rparr>))"
proof -
  let ?ts = "currentTime (toISOString d)"
  have ts: "?ts = fixedDec 4 (nat (year d)) @ fixedDec 2 (month d) @ fixedDec 2 (day d) @
                  fixedDec 2 (hours d) @ fixedDec 2 (minutes d) @ fixedDec 2 (seconds d)"
    using assms(1,2) by (rule currentTime_toISOString)
  have len: "length ?ts = 14"
    unfolding ts by (simp add: length_fixedDec del: fixedDec.simps)
  have dig: "list_all isDigit ?ts"
    unfolding ts by (simp add: isDigit_fixedDec del: fixedDec.simps)
  have small: "nat (year d) < 10 ^ 4" "month d < 10 ^ 2" "day d < 10 ^ 2" "hours d < 10 ^ 2"
      "minutes d < 10 ^ 2" "seconds d < 10 ^ 2"
    using assms(1-3) by (simp_all add: validDate_def)
  have fields:
    "[decVal (slice_str 0 4 ?ts), decVal (slice_str 4 6 ?ts), decVal (slice_str 6 8 ?ts),
      decVal (slice_str 8 10 ?ts), decVal (slice_str 10 12 ?ts), decVal (slice_str 12 14 ?ts)] =
     [nat (year d), month d, day d, hours d, minutes d, seconds d]"
    unfolding ts
    using small
    by (simp add: slice_str_def length_fixedDec decVal_fixedDec del: fixedDec.simps)
  have act: "action \<noteq> []"
    using assms(4) by (auto simp: pickerActions_def)
  have sent: "body_command req = action @ ''+'' @ ?ts"
    if "handleSign lib post (toISOString d) dev action pin = Returned flow"
      and "request flow = Some req" for lib post dev pin flow req
    using handleSign_request [OF that] by auto
  have abort: "handleSign lib post isoNow (Some device) action pin =
                 Returned \<lparr>alerts = [Alert ''Error'' ''Failed to get current time.''],
                           request = None, showSuccessModal = False\<rparr>"
    if "isSixDigits pin" and "length (currentTime isoNow) \<noteq> 14" for lib post isoNow device pin
    using act that by (rule handleSign_no_time)
  show ?thesis
    unfolding Let_def
    using len dig ts fields sent abort by blast
qed

theorem command_construction_witness:
  "validDate \<lparr>year = 2024, month = 1, day = 1, hours = 0, minutes = 0, seconds = 0,
              milliseconds = 0\<rparr> \<and>
   ''shutdown'' \<in> set pickerActions \<and>
   toISOString \<lparr>year = 2024, month = 1, day = 1, hours = 0, minutes = 0, seconds = 0,
                 milliseconds = 0\<rparr> = ''2024-01-01T00:00:00.000Z'' \<and>
   currentTime ''2024-01-01T00:00:00.000Z'' = ''20240101000000'' \<and>
   (\<exists>blob.
      encryptPrivateKey testLib ''0000000000000000000000000000000000000000000000000000000000000001'' ''123456'' (replicate 16 0xA5 @ replicate 16 0x3C) =
        (Some blob, []) \<and>
      handleSign testLib (\<lambda>r. PostOk) ''2024-01-01T00:00:00.000Z''
        (Some \<lparr>pubkey = ''04aa'', deviceName = ''desk'', relayUrl = ''https://r.example'',
               encryptedPrivKey = blob\<rparr>) ''shutdown'' ''123456'' =
      Returned \<lparr>alerts = [],
                request = Some \<lparr>url = ''https://r.example/api/request/send-command'',
                                body_pubkey = ''04aa'', body_signature = ''73687574646f776e2b32303234303130313030303030300000000000000000000000000000000000000000000000000000000000000000000000000000000001'',
                                body_command = ''shutdown+20240101000000''\<rparr>,
                showSuccessModal = True\<rparr>) \<and>
   length (currentTime ''2024-01-01'') \<noteq> 14 \<and>
   handleSign testLib (\<lambda>r. PostOk) ''2024-01-01''
     (Some \<lparr>pubkey = ''04aa'', deviceName = ''desk'', relayUrl = ''https://r.example'',
            encryptedPrivKey = ''''\<rparr>) ''shutdown'' ''123456'' =
   Returned \<lparr>alerts = [Alert ''Error'' ''Failed to get current time.''], request = None,
             showSuccessModal = False\<rparr>"
proof -
  let ?d = "\<lparr>year = 2024, month = 1, day = 1, hours = 0, minutes = 0, seconds = 0,
              milliseconds = 0\<rparr>"
  let ?dev0 = "\<lparr>pubkey = ''04aa'', deviceName = ''desk'', relayUrl = ''https://r.example'',
                 encryptedPrivKey = ''''\<rparr>"
  have v: "validDate ?d"
    by (simp add: validDate_def)
  have y: "0 \<le> year ?d" "year ?d \<le> 9999"
    by simp_all
  have a: "''shutdown'' \<in> set pickerActions"
    by (simp add: pickerActions_def)
  have iso: "toISOString ?d = ''2024-01-01T00:00:00.000Z''"
    by code_simp
  have t: "currentTime ''2024-01-01T00:00:00.000Z'' = ''20240101000000''"
    by (simp add: currentTime_def slice_str_def)
  have short: "length (currentTime ''2024-01-01'') \<noteq> 14"
    by (simp add: currentTime_def slice_str_def)
  have l: "32 \<le> length (replicate 16 (0xA5 :: byte) @ replicate 16 0x3C)"
    by simp
  obtain blob where e: "encryptPrivateKey testLib ''0000000000000000000000000000000000000000000000000000000000000001'' ''123456''
                          (replicate 16 0xA5 @ replicate 16 0x3C) = (Some blob, [])"
    and r: "handleSign testLib (\<lambda>r. PostOk) ''2024-01-01T00:00:00.000Z''
              (Some \<lparr>pubkey = ''04aa'', deviceName = ''desk'', relayUrl = ''https://r.example'',
                     encryptedPrivKey = blob\<rparr>) ''shutdown'' ''123456'' =
            Returned \<lparr>alerts = [],
                request = Some \<lparr>url = ''https://r.example/api/request/send-command'',
                                body_pubkey = ''04aa'', body_signature = ''73687574646f776e2b32303234303130313030303030300000000000000000000000000000000000000000000000000000000000000000000000000000000001'',
                                body_command = ''shutdown+20240101000000''\<rparr>,
                showSuccessModal = True\<rparr>"
    using sample_run [OF isSixDigits_samples(1) l t] by (auto simp: Let_def)
  have "handleSign testLib (\<lambda>r. PostOk) ''2024-01-01'' (Some ?dev0) ''shutdown'' ''123456'' =
          Returned \<lparr>alerts = [Alert ''Error'' ''Failed to get current time.''], request = None,
                    showSuccessModal = False\<rparr>"
    using command_construction [OF y v a] isSixDigits_samples(1) short
    unfolding Let_def by blast
  then show ?thesis
    using v a iso t e r short by blast
qed

end
